theory Spec2Isabelle
  imports Main "HOL-Library.Log_Nat"
begin

section \<open>Data model\<close>

subsection \<open>Arbitrary-precision binary floats (Go's math/big Float)\<close>

text \<open>
  A \<open>big.Float\<close> is a binary floating-point number with a mantissa of a fixed number of
  bits (its precision), or an infinity.  \<open>Finite p r\<close> is the float of precision \<open>p\<close>
  whose value is the rational \<open>r\<close>; \<open>Infinite neg\<close> is the infinity of the given sign.
  The sign of a zero cannot be observed through \<open>Cmp\<close> or \<open>IsInt\<close> and is left out, and the
  32-bit range of the binary exponent is not modelled.
\<close>

datatype Float = Finite nat rat | Infinite bool

subsection \<open>JSON literals (Go's \<open>any\<close> as held by \<open>Const\<close> and \<open>Enum\<close>)\<close>

text \<open>
  \<open>ANil\<close> is the nil interface (JSON null, and also an absent \<open>Const\<close>); \<open>AOther\<close>
  stands for a Go value of any type the type switch of \<open>equalsConst\<close> does not list.
  A Go map is an association list; its keys are distinct (see \<open>wf_any\<close>).
\<close>

datatype any = ANil | ABool bool | ANumber string | AString string
  | AArray "any list" | AObject "(string \<times> any) list" | AOther

subsection \<open>Schemas\<close>

text \<open>
  The schema struct is declared in the schema package; the record holds the fields the
  validator reads, the datatype adds the fields that hold schemas.  The capitalised
  number fields are the declared JSON numbers (they only appear as arguments of
  diagnostics); the lower-case ones are what the accessors \<open>GetMultipleOf\<close>,
  \<open>GetMinimum\<close>, ... return, \<open>None\<close> for a nil pointer.  The length and count
  bounds are read through accessors that return the pointer field itself.
  \<open>compileError\<close> is what \<open>Compile\<close> returns for the schema.  A \<open>Regexp\<close> is a compiled
  pattern: its source text and the strings it matches.
\<close>

record Regexp =
  source :: string
  MatchString :: "string \<Rightarrow> bool"

record schema_clauses =
  Never :: bool
  Always :: bool
  Type :: string
  Const :: any
  Enum :: "any list"
  MultipleOf :: string
  Minimum :: string
  ExclusiveMinimum :: string
  Maximum :: string
  ExclusiveMaximum :: string
  multipleOf :: "Float option"
  minimum :: "Float option"
  exclusiveMinimum :: "Float option"
  maximum :: "Float option"
  exclusiveMaximum :: "Float option"
  MinLength :: "nat option"
  MaxLength :: "nat option"
  pattern :: "Regexp option"
  MinItems :: "nat option"
  MaxItems :: "nat option"
  MinProperties :: "nat option"
  MaxProperties :: "nat option"
  Required :: "string list"
  DependentRequired :: "(string \<times> string list) list"
  compileError :: "string option"

datatype schema = Schema (clauses: schema_clauses) (PrefixItems: "schema option list")
  (Items: "schema option") (Properties: "(string \<times> schema option) list")
  (AdditionalProperties: "schema option")

subsection \<open>Syntax nodes and source ranges\<close>

record Pos =
  Line :: int
  Column :: int
  Byte :: int

record hcl_Range =
  Filename :: string
  Start :: Pos
  End_hcl :: Pos

datatype ast_kind = NullExpr | BooleanExpr bool | NumberExpr string | StringExpr string
  | OtherSyntax

record ast_Expr =
  kind :: ast_kind
  syntax_range :: "hcl_Range option"

datatype subscript = IndexString string | IndexInt int | IndexOther

datatype PropertyAccessor = PropertyName string | PropertySubscript subscript

subsection \<open>Expressions and values\<close>

text \<open>
  An \<open>expr\<close> and the values it refers to.  The memoised \<open>value\<close> field of an expression
  (a pointer back to the value it defines) is left out: neither validation nor export
  reads it.  \<open>val\<close> is the \<open>value\<close> struct, with the fields the validator and the exporter
  read.  \<open>OtherExpr\<close> stands for a representation that the type switch of \<open>export\<close> does
  not list.
\<close>

datatype expr = Expr (x_path: string) (x_repr: exprRepr) (x_base: "val option")
    (x_schema: "schema option") (x_state: int) (x_secret: bool)
and exprRepr =
    LiteralExpr ast_Expr
  | InterpolateExpr ast_Expr "(string \<times> (PropertyAccessor \<times> val) list option) list"
  | SymbolExpr ast_Expr "(PropertyAccessor \<times> val) list"
  | AccessExpr ast_Expr val PropertyAccessor
  | ListExpr ast_Expr "expr list"
  | ObjectExpr ast_Expr "(string \<times> expr) list"
  | OpenExpr ast_Expr expr expr "schema option"
  | ToJSONExpr ast_Expr expr
  | ToStringExpr ast_Expr expr
  | JoinExpr ast_Expr expr expr
  | SecretExpr ast_Expr expr
  | ToBase64Expr ast_Expr expr
  | OtherExpr ast_Expr
and val = Value (v_def: expr) (v_schema: "schema option") (v_unknown: bool) (v_secret: bool)
    (v_repr: valueRepr)
and valueRepr = VNil | VBool bool | VNumber string | VString string
  | VArray "val list" | VObject "(string \<times> val) list"

fun "syntax" :: "exprRepr \<Rightarrow> ast_Expr" where
  "syntax (LiteralExpr n) = n"
| "syntax (InterpolateExpr n parts) = n"
| "syntax (SymbolExpr n property) = n"
| "syntax (AccessExpr n receiver accessor) = n"
| "syntax (ListExpr n elements) = n"
| "syntax (ObjectExpr n properties) = n"
| "syntax (OpenExpr n provider inputs inputSchema) = n"
| "syntax (ToJSONExpr n v) = n"
| "syntax (ToStringExpr n v) = n"
| "syntax (JoinExpr n delimiter vs) = n"
| "syntax (SecretExpr n v) = n"
| "syntax (ToBase64Expr n v) = n"
| "syntax (OtherExpr n) = n"

section \<open>Diagnostics\<close>

text \<open>
  \<open>errorf\<close> hands a syntax node, a format string and its arguments to the diagnostic
  sink.  The validators only ever append diagnostics and never read them, so every
  validator returns its verdict together with the diagnostics it emits, in emission
  order.  The arguments are kept unrendered: \<open>FJson c\<close> stands for \<open>jsonRepr(c)\<close>, the
  JSON text of a literal, \<open>FUint\<close> for a pointer to an unsigned integer, \<open>FErr\<close> for the
  error of the number parser.
\<close>

datatype parse_error = ErrNoDigits | ErrExpectedEnd char | ErrEOF

datatype fmt_arg = FString string | FJson any | FJsonList "any list" | FUint "nat option"
  | FErr parse_error

record diag =
  node :: ast_Expr
  format :: string
  args :: "fmt_arg list"

section \<open>Blame locations\<close>

record validationLoc =
  loc_x :: expr
  loc_path :: string
  loc_prefix :: bool

text \<open>\<open>itoa\<close> is the decimal rendering \<open>%v\<close> gives a non-negative \<open>int\<close>.\<close>

fun itoa :: "nat \<Rightarrow> string" where
  "itoa n = (if n < 10 then [char_of (48 + n)] else itoa (n div 10) @ [char_of (48 + n mod 10)])"

text \<open>
  Modelled from the spec: \<open>joinKey\<close> is a helper of the evaluator whose definition is
  missing here; the spec has the validator append \<open>.key\<close> to the path.
\<close>

definition joinKey :: "string \<Rightarrow> string \<Rightarrow> string" where
  "joinKey r k = r @ ''.'' @ k"

definition index :: "validationLoc \<Rightarrow> nat \<Rightarrow> validationLoc" where
  "index l i =
     (let outer = \<lparr>loc_x = loc_x l, loc_path = loc_path l @ ''['' @ itoa i @ '']'',
                    loc_prefix = True\<rparr>
      in case x_repr (loc_x l) of
           ListExpr n elements \<Rightarrow>
             if i < length elements
             then \<lparr>loc_x = elements ! i, loc_path = ''['' @ itoa i @ '']'', loc_prefix = False\<rparr>
             else outer
         | _ \<Rightarrow> outer)"

definition property :: "validationLoc \<Rightarrow> string \<Rightarrow> validationLoc" where
  "property l k =
     (let outer = \<lparr>loc_x = loc_x l, loc_path = joinKey (loc_path l) k, loc_prefix = True\<rparr>
      in case x_repr (loc_x l) of
           ObjectExpr n properties \<Rightarrow>
             (case map_of properties k of
                Some v \<Rightarrow> \<lparr>loc_x = v, loc_path = joinKey [] k, loc_prefix = False\<rparr>
              | None \<Rightarrow> outer)
         | _ \<Rightarrow> outer)"

definition validationErrorf :: "validationLoc \<Rightarrow> string \<Rightarrow> fmt_arg list \<Rightarrow> diag" where
  "validationErrorf loc fmt as =
     \<lparr>node = syntax (x_repr (loc_x loc)),
      format = (if loc_prefix loc then loc_path loc @ '': '' @ fmt else fmt),
      args = as\<rparr>"

definition typeError :: "validationLoc \<Rightarrow> string \<Rightarrow> string \<Rightarrow> bool \<times> diag list" where
  "typeError loc expected got =
     (False, [validationErrorf loc ''expected %s, got %s'' [FString expected, FString got]])"

section \<open>Schema-versus-schema validation\<close>

text \<open>
  \<open>isAny\<close> holds of the nil pointer and of a schema that sets \<open>always\<close>.  The validators
  read the fields of a schema after this test only: \<open>the s\<close> is the schema that a pointer
  \<open>s\<close> other than nil points to.
\<close>

definition isAny :: "schema option \<Rightarrow> bool" where
  "isAny s = (case s of None \<Rightarrow> True | Some s' \<Rightarrow> Always (clauses s'))"

definition checkType :: "string \<Rightarrow> schema \<Rightarrow> validationLoc \<Rightarrow> bool \<times> diag list" where
  "checkType actual accept loc =
     (if actual \<noteq> Type (clauses accept) then typeError loc (Type (clauses accept)) actual
      else (True, []))"

text \<open>
  \<open>checkRequired\<close> is the closure of \<open>validateSchemaObject\<close>; \<open>xreq\<close> is the set of keys
  the input schema requires.
\<close>

fun checkRequired :: "string list \<Rightarrow> validationLoc \<Rightarrow> string list \<Rightarrow> bool \<times> diag list" where
  "checkRequired xreq loc [] = (True, [])"
| "checkRequired xreq loc (name # ra) =
     (let (ok, ds) = checkRequired xreq loc ra
      in if name \<notin> set xreq
         then (False, validationErrorf (property loc name) ''missing required property'' [] # ds)
         else (ok, ds))"

fun checkDependentRequired ::
  "string list \<Rightarrow> validationLoc \<Rightarrow> (string \<times> string list) list \<Rightarrow> bool \<times> diag list" where
  "checkDependentRequired xreq loc [] = (True, [])"
| "checkDependentRequired xreq loc ((name, req) # rest) =
     (let (ok, ds) = (if name \<in> set xreq then checkRequired xreq loc req else (True, []));
          (ok', ds') = checkDependentRequired xreq loc rest
      in (ok \<and> ok', ds @ ds'))"

function validateSchemaType ::
    "schema option \<Rightarrow> schema option \<Rightarrow> validationLoc \<Rightarrow> bool \<times> diag list"
  and validateSchemaArray :: "schema \<Rightarrow> schema \<Rightarrow> validationLoc \<Rightarrow> bool \<times> diag list"
  and validateSchemaArray_loop :: "schema option \<Rightarrow> schema option \<Rightarrow> validationLoc \<Rightarrow>
      schema option list \<Rightarrow> schema option list \<Rightarrow> nat \<Rightarrow> bool \<times> diag list"
  and validateSchemaObject :: "schema \<Rightarrow> schema \<Rightarrow> validationLoc \<Rightarrow> bool \<times> diag list"
  and validateSchemaObject_loop :: "schema \<Rightarrow> validationLoc \<Rightarrow>
      (string \<times> schema option) list \<Rightarrow> bool \<times> diag list"
where
  "validateSchemaType x accept loc =
     (if isAny accept then (True, [])
      else if Never (clauses (the accept)) then (False, [])
      else if isAny x then (True, [])
      else (case checkType (Type (clauses (the x))) (the accept) loc of
              (ok, ds) \<Rightarrow>
                if \<not> ok then (False, ds)
                else if Type (clauses (the x)) = ''array''
                  then validateSchemaArray (the x) (the accept) loc
                else if Type (clauses (the x)) = ''object''
                  then validateSchemaObject (the x) (the accept) loc
                else (True, [])))"
| "validateSchemaArray x accept loc =
     (case x of Schema xf xprefix xitems xprops xadd \<Rightarrow>
        validateSchemaArray_loop xitems (Items accept) loc xprefix (PrefixItems accept) 0)"
| "validateSchemaArray_loop xitems aitems loc (xp # xprefix) (ap # aprefix) i =
     (let (ok, ds) = validateSchemaType xp ap (index loc i);
          (allOk, ds') = validateSchemaArray_loop xitems aitems loc xprefix aprefix (Suc i)
      in (ok \<and> allOk, ds @ ds'))"
| "validateSchemaArray_loop xitems aitems loc (xp # xprefix) [] i =
     (let (ok, ds) = validateSchemaType xp aitems (index loc i);
          (allOk, ds') = validateSchemaArray_loop xitems aitems loc xprefix [] (Suc i)
      in (ok \<and> allOk, ds @ ds'))"
| "validateSchemaArray_loop xitems aitems loc [] (ap # aprefix) i =
     (let (ok, ds) = validateSchemaType xitems ap (index loc i);
          (allOk, ds') = validateSchemaArray_loop xitems aitems loc [] aprefix (Suc i)
      in (ok \<and> allOk, ds @ ds'))"
| "validateSchemaArray_loop xitems aitems loc [] [] i =
     (case xitems of
        None \<Rightarrow> (True, [])
      | Some it \<Rightarrow>
          if \<not> Never (clauses it) then validateSchemaType (Some it) aitems loc
          else (True, []))"
| "validateSchemaObject x accept loc =
     (case x of Schema xf xprefix xitems xprops xadd \<Rightarrow>
        (let (ok, ds) = validateSchemaObject_loop accept loc xprops;
             (ok', ds') =
               (case xadd of
                  None \<Rightarrow>
                    (let xreq = Required xf;
                         (ok1, ds1) = checkRequired xreq loc (Required (clauses accept));
                         (ok2, ds2) = checkDependentRequired xreq loc
                                        (DependentRequired (clauses accept))
                     in (ok1 \<and> ok2, ds1 @ ds2))
                | Some ap \<Rightarrow>
                    if \<not> Never (clauses ap)
                    then validateSchemaType (Some ap) (AdditionalProperties accept) loc
                    else (True, []))
         in (ok \<and> ok', ds @ ds')))"
| "validateSchemaObject_loop accept loc [] = (True, [])"
| "validateSchemaObject_loop accept loc ((name, px) # xprops) =
     (let (ok, ds) =
            (case map_of (Properties accept) name of
               Some pa \<Rightarrow> validateSchemaType px pa (property loc name)
             | None \<Rightarrow> validateSchemaType px (AdditionalProperties accept) (property loc name));
          (allOk, ds') = validateSchemaObject_loop accept loc xprops
      in (ok \<and> allOk, ds @ ds'))"
  by pat_completeness auto
termination
  apply (relation "inv_image (less_than <*lex*> less_than)
     (\<lambda>v. case v of
        Inl (Inl (x, accept, loc)) \<Rightarrow> (3 * size_option size x, 0)
      | Inl (Inr (x, accept, loc)) \<Rightarrow> (3 * size x + 2, 0)
      | Inr (Inl (xitems, aitems, loc, xprefix, aprefix, i)) \<Rightarrow>
          (3 * (size_option size xitems + size_list (size_option size) xprefix) + 1,
           length aprefix)
      | Inr (Inr (Inl (x, accept, loc))) \<Rightarrow> (3 * size x + 2, 0)
      | Inr (Inr (Inr (accept, loc, xprops))) \<Rightarrow>
          (3 * size_list (size_prod (\<lambda>_. 0) (size_option size)) xprops + 1, 0))")
  apply (auto simp: isAny_def split: option.splits)
  done

section \<open>Numbers\<close>

text \<open>
  The operations of \<open>math/big\<close> the validator calls, after the library's documentation.
  \<open>round_prec p r\<close> rounds \<open>r\<close> to a mantissa of \<open>p\<close> bits, ties to the even mantissa
  (\<open>ToNearestEven\<close>).
\<close>

definition pow2 :: "int \<Rightarrow> rat" where
  "pow2 e = (if 0 \<le> e then 2 ^ nat e else 1 / 2 ^ nat (- e))"

definition pow10 :: "int \<Rightarrow> rat" where
  "pow10 e = (if 0 \<le> e then 10 ^ nat e else 1 / 10 ^ nat (- e))"

definition ilog2 :: "rat \<Rightarrow> int" where
  "ilog2 r = (case quotient_of r of (a, b) \<Rightarrow>
     (let e = bitlen a - bitlen b in if pow2 e \<le> r then e else e - 1))"

definition round_half_even :: "rat \<Rightarrow> int" where
  "round_half_even r = (let f = \<lfloor>r\<rfloor>; d = r - of_int f in
     if d < 1 / 2 then f else if 1 / 2 < d then f + 1 else if even f then f else f + 1)"

definition round_prec :: "nat \<Rightarrow> rat \<Rightarrow> rat" where
  "round_prec p r = (if r = 0 then 0 else
     (let a = \<bar>r\<bar>; e = ilog2 a; m = round_half_even (a * pow2 (int p - 1 - e))
      in sgn r * of_int m * pow2 (e - (int p - 1))))"

fun IsInt :: "Float \<Rightarrow> bool" where
  "IsInt (Finite p r) = (r = of_int \<lfloor>r\<rfloor>)"
| "IsInt (Infinite neg) = False"

fun Cmp :: "Float \<Rightarrow> Float \<Rightarrow> int" where
  "Cmp (Finite p a) (Finite q b) = (if a < b then - 1 else if a = b then 0 else 1)"
| "Cmp (Finite p a) (Infinite neg) = (if neg then 1 else - 1)"
| "Cmp (Infinite neg) (Finite q b) = (if neg then - 1 else 1)"
| "Cmp (Infinite neg) (Infinite neg') = (if neg = neg' then 0 else if neg then - 1 else 1)"

text \<open>
  \<open>Quo x y\<close> is \<open>q.Quo(x, y)\<close> for a fresh \<open>q\<close>: the quotient rounded to the larger of
  the two precisions; \<open>None\<close> is the panic (\<open>ErrNaN\<close>) on 0/0 and Inf/Inf.
\<close>

fun Quo :: "Float \<Rightarrow> Float \<Rightarrow> Float option" where
  "Quo (Finite p a) (Finite q b) =
     (if b = 0 then (if a = 0 then None else Some (Infinite (a < 0)))
      else Some (Finite (max p q) (round_prec (max p q) (a / b))))"
| "Quo (Finite p a) (Infinite neg) = Some (Finite p 0)"
| "Quo (Infinite neg) (Finite q b) = Some (Infinite (neg \<noteq> (b < 0)))"
| "Quo (Infinite neg) (Infinite neg') = None"

text \<open>
  \<open>ParseFloat s\<close> is \<open>big.ParseFloat(s, 10, 0, big.ToNearestEven)\<close>: an optional sign, a
  decimal mantissa with an optional point, an optional exponent (\<open>e\<close> for a power of ten,
  \<open>p\<close> for a power of two), or an infinity; precision 0 stands for 64 bits.  The result
  is the value of the literal rounded to 64 bits.  The errors of the library for
  exponents out of its range are not modelled.
\<close>

definition is_digit :: "char \<Rightarrow> bool" where
  "is_digit c = (48 \<le> (of_char c :: nat) \<and> (of_char c :: nat) \<le> 57)"

definition digit_val :: "char \<Rightarrow> int" where
  "digit_val c = of_char c - 48"

fun scan_digits :: "string \<Rightarrow> int \<Rightarrow> nat \<Rightarrow> int \<times> nat \<times> string" where
  "scan_digits [] acc cnt = (acc, cnt, [])"
| "scan_digits (c # cs) acc cnt =
     (if is_digit c then scan_digits cs (10 * acc + digit_val c) (Suc cnt)
      else (acc, cnt, c # cs))"

definition scanSign :: "string \<Rightarrow> parse_error + bool \<times> string" where
  "scanSign s = (case s of
       [] \<Rightarrow> Inl ErrEOF
     | c # cs \<Rightarrow> if c = CHR ''-'' then Inr (True, cs)
                else if c = CHR ''+'' then Inr (False, cs) else Inr (False, c # cs))"

definition scanMantissa :: "string \<Rightarrow> parse_error + int \<times> nat \<times> string" where
  "scanMantissa s =
     (case scan_digits s 0 0 of (m1, c1, r1) \<Rightarrow>
        (case r1 of
           c # r1' \<Rightarrow>
             if c = CHR ''.''
             then (case scan_digits r1' m1 0 of (m2, c2, r2) \<Rightarrow>
                     if c1 + c2 = 0 then Inl ErrNoDigits else Inr (m2, c2, r2))
             else if c1 = 0 then Inl ErrNoDigits else Inr (m1, 0, r1)
         | [] \<Rightarrow> if c1 = 0 then Inl ErrNoDigits else Inr (m1, 0, r1)))"

definition scanExponent :: "string \<Rightarrow> parse_error + int \<times> nat \<times> string" where
  "scanExponent s =
     (case s of
        [] \<Rightarrow> Inr (0, 10, [])
      | c # cs \<Rightarrow>
          if c \<in> set ''eEpP''
          then (let ebase = (if c \<in> set ''eE'' then 10 else 2);
                    (neg, ds) = (case cs of
                                   [] \<Rightarrow> (False, [])
                                 | d # ds' \<Rightarrow> if d = CHR ''-'' then (True, ds')
                                             else if d = CHR ''+'' then (False, ds')
                                             else (False, d # ds'))
                in case scan_digits ds 0 0 of (e, cnt, r) \<Rightarrow>
                     if cnt = 0 then Inl ErrNoDigits
                     else Inr (if neg then - e else e, ebase, r))
          else Inr (0, 10, c # cs))"

text \<open>\<open>scanFloat s\<close> is the exact value of the literal \<open>s\<close>, before any rounding.\<close>

definition scanFloat :: "string \<Rightarrow> parse_error + rat" where
  "scanFloat s =
     (case scanSign s of
        Inl err \<Rightarrow> Inl err
      | Inr (neg, r0) \<Rightarrow>
          (case scanMantissa r0 of
             Inl err \<Rightarrow> Inl err
           | Inr (mant, fcount, r1) \<Rightarrow>
               (case scanExponent r1 of
                  Inl err \<Rightarrow> Inl err
                | Inr (ex, ebase, r2) \<Rightarrow>
                    (case r2 of
                       c # cs \<Rightarrow> Inl (ErrExpectedEnd c)
                     | [] \<Rightarrow>
                         Inr ((if neg then - 1 else 1) * of_int mant * pow10 (- int fcount)
                              * (if ebase = 10 then pow10 ex else pow2 ex))))))"

definition ParseFloat :: "string \<Rightarrow> parse_error + Float" where
  "ParseFloat s =
     (if s = ''Inf'' \<or> s = ''inf'' \<or> s = ''+Inf'' \<or> s = ''+inf'' then Inr (Infinite False)
      else if s = ''-Inf'' \<or> s = ''-inf'' then Inr (Infinite True)
      else case scanFloat s of
        Inl err \<Rightarrow> Inl err
      | Inr r \<Rightarrow> Inr (Finite 64 (round_prec 64 r)))"

section \<open>Value-versus-schema validation\<close>

subsection \<open>Constants and enumerations\<close>

function equalsConst :: "val \<Rightarrow> any \<Rightarrow> bool"
  and equalsConst_array :: "val list \<Rightarrow> nat \<Rightarrow> any list \<Rightarrow> bool"
  and equalsConst_map :: "(string \<times> val) list \<Rightarrow> (string \<times> any) list \<Rightarrow> bool"
where
  "equalsConst v ANil = (case v_repr v of VNil \<Rightarrow> True | _ \<Rightarrow> False)"
| "equalsConst v (ABool c) = (case v_repr v of VBool b \<Rightarrow> b = c | _ \<Rightarrow> False)"
| "equalsConst v (ANumber c) = (case v_repr v of VNumber n \<Rightarrow> n = c | _ \<Rightarrow> False)"
| "equalsConst v (AString c) = (case v_repr v of VString s \<Rightarrow> s = c | _ \<Rightarrow> False)"
| "equalsConst v (AArray c) =
     (case v_repr v of
        VArray a \<Rightarrow> if length a \<noteq> length c then False else equalsConst_array a 0 c
      | _ \<Rightarrow> False)"
| "equalsConst v (AObject c) =
     (case v_repr v of
        VObject m \<Rightarrow> if length m \<noteq> length c then False else equalsConst_map m c
      | _ \<Rightarrow> False)"
| "equalsConst v AOther = False"
| "equalsConst_array a i [] = True"
| "equalsConst_array a i (c # cs) =
     (if \<not> equalsConst (a ! i) c then False else equalsConst_array a (Suc i) cs)"
| "equalsConst_map m [] = True"
| "equalsConst_map m ((k, c) # cs) =
     (case map_of m k of
        None \<Rightarrow> False
      | Some v \<Rightarrow> if \<not> equalsConst v c then False else equalsConst_map m cs)"
  by pat_completeness auto
termination
  apply (relation "measure (\<lambda>v. case v of
        Inl (v, c) \<Rightarrow> 2 * size c
      | Inr (Inl (a, i, cs)) \<Rightarrow> 2 * size_list size cs + 1
      | Inr (Inr (m, cs)) \<Rightarrow> 2 * size_list (size_prod (\<lambda>_. 0) size) cs + 1)")
  apply auto
  done

definition constError :: "validationLoc \<Rightarrow> any \<Rightarrow> bool \<times> diag list" where
  "constError loc expected = (False, [validationErrorf loc ''expected %v'' [FJson expected]])"

definition enumError :: "validationLoc \<Rightarrow> any list \<Rightarrow> bool \<times> diag list" where
  "enumError loc expected =
     (if length expected = 1 then constError loc (expected ! 0)
      else (False, [validationErrorf loc ''expected one of %v'' [FJsonList expected]]))"

definition validateConst :: "val \<Rightarrow> schema \<Rightarrow> validationLoc \<Rightarrow> bool \<times> diag list" where
  "validateConst v accept loc =
     (if Const (clauses accept) = ANil \<or> equalsConst v (Const (clauses accept)) then (True, [])
      else constError loc (Const (clauses accept)))"

fun validateEnum_loop :: "val \<Rightarrow> any list \<Rightarrow> bool" where
  "validateEnum_loop v [] = False"
| "validateEnum_loop v (c # cs) = (if equalsConst v c then True else validateEnum_loop v cs)"

definition validateEnum :: "val \<Rightarrow> schema \<Rightarrow> validationLoc \<Rightarrow> bool \<times> diag list" where
  "validateEnum v accept loc =
     (if length (Enum (clauses accept)) = 0 then (True, [])
      else if validateEnum_loop v (Enum (clauses accept)) then (True, [])
      else enumError loc (Enum (clauses accept)))"

subsection \<open>Numbers and strings\<close>

text \<open>\<open>failed st d\<close>: the diagnostic \<open>d\<close> is emitted and \<open>ok\<close> is set to false.\<close>

definition failed :: "bool \<times> diag list \<Rightarrow> diag \<Rightarrow> bool \<times> diag list" where
  "failed st d = (False, snd st @ [d])"

definition validateNumber ::
  "string \<Rightarrow> schema \<Rightarrow> validationLoc \<Rightarrow> (bool \<times> diag list) option" where
  "validateNumber v accept loc =
     (case ParseFloat v of
        Inl err \<Rightarrow>
          Some (False, [validationErrorf loc ''internal error: invalid number %q (%v)''
                          [FString v, FErr err]])
      | Inr n \<Rightarrow>
          (case (case multipleOf (clauses accept) of
                   None \<Rightarrow> Some (True, [])
                 | Some m \<Rightarrow>
                     (case Quo n m of
                        None \<Rightarrow> None
                      | Some q \<Rightarrow>
                          if \<not> IsInt q
                          then Some (failed (True, [])
                                 (validationErrorf loc ''expected a multiple of %v''
                                    [FString (MultipleOf (clauses accept))]))
                          else Some (True, []))) of
             None \<Rightarrow> None
           | Some st \<Rightarrow>
               (let st = (case minimum (clauses accept) of
                            Some m \<Rightarrow>
                              if Cmp n m > 0
                              then failed st (validationErrorf loc
                                     ''expected a number greater than or equal to %v''
                                     [FString (Minimum (clauses accept))])
                              else st
                          | None \<Rightarrow> st);
                    st = (case exclusiveMinimum (clauses accept) of
                            Some m \<Rightarrow>
                              if Cmp n m \<ge> 0
                              then failed st (validationErrorf loc
                                     ''expected a number greater than %v''
                                     [FString (ExclusiveMinimum (clauses accept))])
                              else st
                          | None \<Rightarrow> st);
                    st = (case maximum (clauses accept) of
                            Some m \<Rightarrow>
                              if Cmp n m < 0
                              then failed st (validationErrorf loc
                                     ''expected a number less than or equal to%v''
                                     [FString (Maximum (clauses accept))])
                              else st
                          | None \<Rightarrow> st);
                    st = (case exclusiveMaximum (clauses accept) of
                            Some m \<Rightarrow>
                              if Cmp n m \<le> 0
                              then failed st (validationErrorf loc
                                     ''expected a number less than %v''
                                     [FString (ExclusiveMaximum (clauses accept))])
                              else st
                          | None \<Rightarrow> st)
                in Some st)))"

definition validateString :: "string \<Rightarrow> schema \<Rightarrow> validationLoc \<Rightarrow> bool \<times> diag list" where
  "validateString v accept loc =
     (let st = (True, []);
          st = (case MinLength (clauses accept) of
                  Some m \<Rightarrow>
                    if length v < m
                    then failed st (validationErrorf loc
                           ''expected a string of at least length %v''
                           [FUint (MinLength (clauses accept))])
                    else st
                | None \<Rightarrow> st);
          st = (case MaxLength (clauses accept) of
                  Some m \<Rightarrow>
                    if length v > m
                    then failed st (validationErrorf loc
                           ''expected a string of at most length %v''
                           [FUint (MaxLength (clauses accept))])
                    else st
                | None \<Rightarrow> st);
          st = (case pattern (clauses accept) of
                  Some p \<Rightarrow>
                    if \<not> MatchString p v
                    then failed st (validationErrorf loc
                           ''string must match the pattern %q'' [FString (source p)])
                    else st
                | None \<Rightarrow> st)
      in st)"

subsection \<open>Arrays, objects and the dispatch on the value\<close>

text \<open>
  Modelled from the spec: \<open>Compile\<close> is a method of the schema package whose definition
  is missing here.  The spec has it idempotent and able to fail: \<open>compileError\<close> is its
  result for a schema.  \<open>validateElement\<close> calls it before the test for nil, so also on
  the nil \<open>items\<close> and \<open>additionalProperties\<close> that the spec has default to \<open>always\<close>;
  the model has it report no error for the nil pointer, and the properties of nil
  schemas below name \<open>Compile None = None\<close> as their assumption.
\<close>

definition Compile :: "schema option \<Rightarrow> string option" where
  "Compile s = (case s of None \<Rightarrow> None | Some s' \<Rightarrow> compileError (clauses s'))"

text \<open>
  Modelled from the spec: the methods \<open>keys\<close> and \<open>property\<close> of a value, whose
  definitions are missing here.  The spec has an object be a key-to-value mapping
  iterated in a fixed order: \<open>keys\<close> lists its keys, \<open>property\<close> looks one up.
\<close>

definition keys :: "val \<Rightarrow> string list" where
  "keys v = (case v_repr v of VObject m \<Rightarrow> map fst m | _ \<Rightarrow> [])"

definition property_of :: "val \<Rightarrow> string \<Rightarrow> val option" where
  "property_of v k = (case v_repr v of VObject m \<Rightarrow> map_of m k | _ \<Rightarrow> None)"

text \<open>\<open>Join\<close> is \<open>strings.Join\<close>.\<close>

fun Join :: "string list \<Rightarrow> string \<Rightarrow> string" where
  "Join [] sep = []"
| "Join [a] sep = a"
| "Join (a # b # rest) sep = a @ sep @ Join (b # rest) sep"

text \<open>The keys that \<open>validateObject\<close> collects in \<open>missing\<close>.\<close>

fun missingDependent :: "string list \<Rightarrow> (string \<times> string list) list \<Rightarrow> string list" where
  "missingDependent keySet [] = []"
| "missingDependent keySet ((k, required) # rest) =
     (if k \<in> set keySet then filter (\<lambda>rk. rk \<notin> set keySet) required else [])
     @ missingDependent keySet rest"

definition missingKeys :: "string list \<Rightarrow> schema \<Rightarrow> string list" where
  "missingKeys keySet accept =
     filter (\<lambda>k. k \<notin> set keySet) (Required (clauses accept))
     @ missingDependent keySet (DependentRequired (clauses accept))"

lemma size_v_repr: "size (v_repr v) < size v"
  by (cases v) simp

lemma size_v_array: "v_repr v = VArray a \<Longrightarrow> size_list size a < size v"
  using size_v_repr [of v] by simp

lemma size_property_of: "property_of v k = Some kv \<Longrightarrow> size kv < size v"
proof -
  assume a: "property_of v k = Some kv"
  then obtain m where m: "v_repr v = VObject m" and l: "map_of m k = Some kv"
    by (auto simp: property_of_def split: valueRepr.splits)
  from l have "(k, kv) \<in> set m" by (rule map_of_SomeD)
  then have "size_prod (\<lambda>_. 0) size (k, kv) < Suc (size_list (size_prod (\<lambda>_. 0) size) m)"
    by (metis less_Suc_eq_le size_list_estimation' order_refl)
  then have "size kv < size (v_repr v)" using m by simp
  then show ?thesis using size_v_repr [of v] by simp
qed

text \<open>
  A result \<open>None\<close> is a panic: the only one the validators can raise is that of \<open>Quo\<close>.
  \<open>validateArray_loop\<close> and \<open>validateObject_loop\<close> are the loops over the elements and
  over the keys.
\<close>

function validateValue :: "val \<Rightarrow> schema option \<Rightarrow> validationLoc \<Rightarrow> (bool \<times> diag list) option"
  and validateElement :: "val \<Rightarrow> schema option \<Rightarrow> validationLoc \<Rightarrow> (bool \<times> diag list) option"
  and validateType :: "val \<Rightarrow> schema \<Rightarrow> validationLoc \<Rightarrow> (bool \<times> diag list) option"
  and validateArray :: "val list \<Rightarrow> schema \<Rightarrow> validationLoc \<Rightarrow> (bool \<times> diag list) option"
  and validateArray_loop ::
      "val list \<Rightarrow> nat \<Rightarrow> schema \<Rightarrow> validationLoc \<Rightarrow> (bool \<times> diag list) option"
  and validateObject :: "val \<Rightarrow> schema \<Rightarrow> validationLoc \<Rightarrow> (bool \<times> diag list) option"
  and validateObject_loop ::
      "val \<Rightarrow> string list \<Rightarrow> schema \<Rightarrow> validationLoc \<Rightarrow> (bool \<times> diag list) option"
where
  "validateValue v accept loc =
     validateElement v accept \<lparr>loc_x = v_def v, loc_path = [], loc_prefix = False\<rparr>"
| "validateElement v accept loc =
     (case Compile accept of
        Some err \<Rightarrow>
          Some (False, [validationErrorf loc ''internal error: invalid schema: %w'' [FString err]])
      | None \<Rightarrow>
          if isAny accept then Some (True, [])
          else if Never (clauses (the accept)) then Some (False, [])
          else if v_unknown v then Some (validateSchemaType (v_schema v) accept loc)
          else (case validateConst v (the accept) loc of (cok, ds1) \<Rightarrow>
                 (case validateEnum v (the accept) loc of (eok, ds2) \<Rightarrow>
                    (case validateType v (the accept) loc of
                       None \<Rightarrow> None
                     | Some (tok, ds3) \<Rightarrow> Some (cok \<and> eok \<and> tok, ds1 @ ds2 @ ds3)))))"
| "validateType v accept loc =
     (case v_repr v of
        VNil \<Rightarrow>
          (case checkType ''null'' accept loc of (ok, ds) \<Rightarrow>
             if \<not> ok then Some (False, ds) else Some (True, ds))
      | VBool b \<Rightarrow>
          (case checkType ''boolean'' accept loc of (ok, ds) \<Rightarrow>
             if \<not> ok then Some (False, ds) else Some (True, ds))
      | VNumber n \<Rightarrow>
          (case checkType ''number'' accept loc of (ok, ds) \<Rightarrow>
             if \<not> ok then Some (False, ds) else validateNumber n accept loc)
      | VString s \<Rightarrow>
          (case checkType ''string'' accept loc of (ok, ds) \<Rightarrow>
             if \<not> ok then Some (False, ds) else Some (validateString s accept loc))
      | VArray a \<Rightarrow>
          (case checkType ''array'' accept loc of (ok, ds) \<Rightarrow>
             if \<not> ok then Some (False, ds) else validateArray a accept loc)
      | VObject m \<Rightarrow>
          (case checkType ''object'' accept loc of (ok, ds) \<Rightarrow>
             if \<not> ok then Some (False, ds) else validateObject v accept loc))"
| "validateArray v accept loc =
     (let st = (True, []);
          st = (case MinItems (clauses accept) of
                  Some m \<Rightarrow>
                    if length v < m
                    then failed st (validationErrorf loc
                           ''expected an array with at least %v items''
                           [FUint (MinItems (clauses accept))])
                    else st
                | None \<Rightarrow> st);
          st = (case MaxItems (clauses accept) of
                  Some m \<Rightarrow>
                    if length v > m
                    then failed st (validationErrorf loc
                           ''expected an array with at most %v items''
                           [FUint (MaxItems (clauses accept))])
                    else st
                | None \<Rightarrow> st)
      in case validateArray_loop v 0 accept loc of
           None \<Rightarrow> None
         | Some (ok, ds) \<Rightarrow> Some (fst st \<and> ok, snd st @ ds))"
| "validateArray_loop [] i accept loc = Some (True, [])"
| "validateArray_loop (v # vs) i accept loc =
     (let vloc = index loc i
      in case (if i < length (PrefixItems accept)
               then validateValue v (PrefixItems accept ! i) vloc
               else validateValue v (Items accept) vloc) of
           None \<Rightarrow> None
         | Some (ok, ds) \<Rightarrow>
             (case validateArray_loop vs (Suc i) accept loc of
                None \<Rightarrow> None
              | Some (ok', ds') \<Rightarrow> Some (ok \<and> ok', ds @ ds')))"
| "validateObject v accept loc =
     (let ks = keys v;
          st = (True, []);
          st = (case MinProperties (clauses accept) of
                  Some m \<Rightarrow>
                    if length ks < m
                    then failed st (validationErrorf loc
                           ''expected an object with at least %v properties''
                           [FUint (MinProperties (clauses accept))])
                    else st
                | None \<Rightarrow> st);
          st = (case MaxProperties (clauses accept) of
                  Some m \<Rightarrow>
                    if length ks > m
                    then failed st (validationErrorf loc
                           ''expected an object with at most %v properties''
                           [FUint (MaxProperties (clauses accept))])
                    else st
                | None \<Rightarrow> st)
      in case validateObject_loop v ks accept loc of
           None \<Rightarrow> None
         | Some (ok, ds) \<Rightarrow>
             (let st = (fst st \<and> ok, snd st @ ds);
                  missing = missingKeys ks accept;
                  st = (if length missing \<noteq> 0
                        then failed st (validationErrorf loc
                               ''missing required properties: %s''
                               [FString (Join missing '', '')])
                        else st)
              in Some st))"
| "validateObject_loop v [] accept loc = Some (True, [])"
| "validateObject_loop v (k # ks) accept loc =
     (case property_of v k of
        None \<Rightarrow> None
      | Some kv \<Rightarrow>
          (let vloc = property loc k
           in case (case map_of (Properties accept) k of
                      Some p \<Rightarrow> validateValue kv p vloc
                    | None \<Rightarrow> validateValue kv (AdditionalProperties accept) vloc) of
                None \<Rightarrow> None
              | Some (ok, ds) \<Rightarrow>
                  (case validateObject_loop v ks accept loc of
                     None \<Rightarrow> None
                   | Some (ok', ds') \<Rightarrow> Some (ok \<and> ok', ds @ ds'))))"
  by pat_completeness auto

termination
  apply (relation "inv_image (less_than <*lex*> less_than)
     (\<lambda>a. case a of
        Inl (Inl (v, accept, loc)) \<Rightarrow> (8 * size v + 6, 0)
      | Inl (Inr (Inl (v, accept, loc))) \<Rightarrow> (8 * size v + 5, 0)
      | Inl (Inr (Inr (v, accept, loc))) \<Rightarrow> (8 * size v + 4, 0)
      | Inr (Inl (Inl (vs, accept, loc))) \<Rightarrow> (8 * size_list size vs + 1, 0)
      | Inr (Inl (Inr (vs, i, accept, loc))) \<Rightarrow> (8 * size_list size vs, 0)
      | Inr (Inr (Inl (v, accept, loc))) \<Rightarrow> (8 * size v + 3, 0)
      | Inr (Inr (Inr (v, ks, accept, loc))) \<Rightarrow> (8 * size v + 2, length ks))")
  apply (auto dest: size_property_of size_v_array)
  done

section \<open>Export\<close>

text \<open>
  The exported, serialisable records of package \<open>environments\<close>.  A nil slice, map or
  pointer is \<open>None\<close>.  The argument schema of a builtin is kept as the expression of
  schema builders that \<open>export\<close> evaluates.  A panic of \<open>export\<close> is a result \<open>Inl\<close>.
\<close>

record env_Range =
  Environment :: string
  Begin :: Pos
  End :: Pos

record Accessor =
  Index :: "int option"
  Key :: "string option"

record env_PropertyAccessor =
  pa_Accessor :: Accessor
  pa_Value :: env_Range

record Interpolation =
  i_Text :: string
  i_Value :: "env_PropertyAccessor list option"

record env_AccessExpr =
  Receiver :: env_Range
  Accessors :: "Accessor list"

datatype builder = B_Always | B_String | B_ArrayItems builder | B_Tuple "builder list"
  | B_Record "(string \<times> builder) list" | B_Schema "schema option"

datatype env_Expr = EnvExpr (Range_e: env_Range) (Base: "env_Expr option")
  (Schema_e: "schema option") (Literal: any) (Interpolate: "Interpolation list option")
  (Symbol: "env_PropertyAccessor list option") (Access: "env_AccessExpr option")
  (List_e: "env_Expr list option") (Object: "(string \<times> env_Expr) list option")
  (Builtin: "(builder \<times> env_Expr) option")

datatype panic = InvalidPropertyAccessor PropertyAccessor | InvalidExprType | NilPointer

definition zeroPos :: Pos where
  "zeroPos = \<lparr>Line = 0, Column = 0, Byte = 0\<rparr>"

definition zeroRange :: env_Range where
  "zeroRange = \<lparr>Environment = [], Begin = zeroPos, End = zeroPos\<rparr>"

text \<open>The zero \<open>environments.Expr\<close> with the given list or object.\<close>

definition listArg :: "env_Expr list \<Rightarrow> env_Expr" where
  "listArg es = EnvExpr zeroRange None None ANil None None None (Some es) None None"

definition objectArg :: "(string \<times> env_Expr) list \<Rightarrow> env_Expr" where
  "objectArg ps = EnvExpr zeroRange None None ANil None None None None (Some ps) None"

definition defRange :: "expr \<Rightarrow> string \<Rightarrow> env_Range" where
  "defRange x environment =
     (case syntax_range (syntax (x_repr x)) of
        Some r \<Rightarrow>
          \<lparr>Environment = Filename r,
           Begin = \<lparr>Line = Line (Start r), Column = Column (Start r), Byte = Byte (Start r)\<rparr>,
           End = \<lparr>Line = Line (End_hcl r), Column = Column (End_hcl r),
                  Byte = Byte (End_hcl r)\<rparr>\<rparr>
      | None \<Rightarrow> \<lparr>Environment = environment, Begin = zeroPos, End = zeroPos\<rparr>)"

fun exportAccessor :: "PropertyAccessor \<Rightarrow> panic + Accessor" where
  "exportAccessor (PropertyName name) = Inr \<lparr>Index = None, Key = Some name\<rparr>"
| "exportAccessor (PropertySubscript (IndexString i)) = Inr \<lparr>Index = None, Key = Some i\<rparr>"
| "exportAccessor (PropertySubscript (IndexInt i)) = Inr \<lparr>Index = Some i, Key = None\<rparr>"
| "exportAccessor (PropertySubscript IndexOther) =
     Inl (InvalidPropertyAccessor (PropertySubscript IndexOther))"

text \<open>The loop over the accessors of a property access (symbols and interpolations).\<close>

fun export_accessors ::
  "(PropertyAccessor \<times> val) list \<Rightarrow> string \<Rightarrow> panic + env_PropertyAccessor list" where
  "export_accessors [] environment = Inr []"
| "export_accessors ((a, v) # rest) environment =
     (case exportAccessor a of
        Inl p \<Rightarrow> Inl p
      | Inr acc \<Rightarrow>
          (case export_accessors rest environment of
             Inl p \<Rightarrow> Inl p
           | Inr rest' \<Rightarrow>
               Inr (\<lparr>pa_Accessor = acc, pa_Value = defRange (v_def v) environment\<rparr> # rest')))"

fun export_parts ::
  "(string \<times> (PropertyAccessor \<times> val) list option) list \<Rightarrow> string \<Rightarrow>
   panic + Interpolation list" where
  "export_parts [] environment = Inr []"
| "export_parts ((text, pv) # rest) environment =
     (case (case pv of
              None \<Rightarrow> Inr None
            | Some accessors \<Rightarrow>
                (case export_accessors accessors environment of
                   Inl p \<Rightarrow> Inl p
                 | Inr v \<Rightarrow> Inr (Some v))) of
        Inl p \<Rightarrow> Inl p
      | Inr v \<Rightarrow>
          (case export_parts rest environment of
             Inl p \<Rightarrow> Inl p
           | Inr rest' \<Rightarrow> Inr (\<lparr>i_Text = text, i_Value = v\<rparr> # rest')))"

lemma size_x_repr: "size (x_repr x) < size x"
  by (cases x) simp

lemma size_v_def: "size (v_def v) < size v"
  by (cases v) simp

lemma size_x_base: "x_base x = Some b \<Longrightarrow> size (v_def b) < size x"
  using size_v_def [of b] by (cases x) simp

lemma size_x_children:
  "x_repr x = AccessExpr n receiver a \<Longrightarrow> size (v_def receiver) < size x"
  "x_repr x = ListExpr n elements \<Longrightarrow> size_list size elements < size x"
  "x_repr x = ObjectExpr n properties \<Longrightarrow>
     size_list (size_prod (\<lambda>_. 0) size) properties < size x"
  "x_repr x = OpenExpr n provider inputs inputSchema \<Longrightarrow> size provider < size x"
  "x_repr x = OpenExpr n provider inputs inputSchema \<Longrightarrow> size inputs < size x"
  "x_repr x = JoinExpr n delimiter vs \<Longrightarrow> size delimiter < size x"
  "x_repr x = JoinExpr n delimiter vs \<Longrightarrow> size vs < size x"
  "x_repr x = SecretExpr n v \<Longrightarrow> size v < size x"
  "x_repr x = ToBase64Expr n v \<Longrightarrow> size v < size x"
  "x_repr x = ToJSONExpr n v \<Longrightarrow> size v < size x"
  "x_repr x = ToStringExpr n v \<Longrightarrow> size v < size x"
  using size_x_repr [of x] size_v_def [of receiver] by simp_all

function export :: "expr \<Rightarrow> string \<Rightarrow> panic + env_Expr"
  and export_list :: "expr list \<Rightarrow> string \<Rightarrow> panic + env_Expr list"
  and export_object :: "(string \<times> expr) list \<Rightarrow> string \<Rightarrow> panic + (string \<times> env_Expr) list"
where
  "export x environment =
     (case (case x_base x of
              None \<Rightarrow> Inr None
            | Some b \<Rightarrow>
                (case export (v_def b) environment of
                   Inl p \<Rightarrow> Inl p
                 | Inr e \<Rightarrow> Inr (Some e))) of
        Inl p \<Rightarrow> Inl p
      | Inr base \<Rightarrow>
          (let rng = defRange x environment; sch = x_schema x
           in case x_repr x of
                LiteralExpr n \<Rightarrow>
                  (case kind n of
                     BooleanExpr b \<Rightarrow>
                       Inr (EnvExpr rng base sch (ABool b) None None None None None None)
                   | NumberExpr c \<Rightarrow>
                       Inr (EnvExpr rng base sch (ANumber c) None None None None None None)
                   | StringExpr c \<Rightarrow>
                       Inr (EnvExpr rng base sch (AString c) None None None None None None)
                   | _ \<Rightarrow> Inr (EnvExpr rng base sch ANil None None None None None None))
              | InterpolateExpr n parts \<Rightarrow>
                  (case export_parts parts environment of
                     Inl p \<Rightarrow> Inl p
                   | Inr interp \<Rightarrow>
                       Inr (EnvExpr rng base sch ANil (Some interp) None None None None None))
              | SymbolExpr n accessors \<Rightarrow>
                  (case export_accessors accessors environment of
                     Inl p \<Rightarrow> Inl p
                   | Inr v \<Rightarrow> Inr (EnvExpr rng base sch ANil None (Some v) None None None None))
              | AccessExpr n receiver a \<Rightarrow>
                  (case exportAccessor a of
                     Inl p \<Rightarrow> Inl p
                   | Inr accessor \<Rightarrow>
                       (case x_repr (v_def receiver) of
                          AccessExpr n' receiver' a' \<Rightarrow>
                            (case export (v_def receiver) environment of
                               Inl p \<Rightarrow> Inl p
                             | Inr (EnvExpr r b s l i sy acc li ob bu) \<Rightarrow>
                                 (case acc of
                                    None \<Rightarrow> Inl NilPointer
                                  | Some ac \<Rightarrow>
                                      Inr (EnvExpr r b s l i sy
                                            (Some (ac\<lparr>Accessors := Accessors ac @ [accessor]\<rparr>))
                                            li ob bu)))
                        | _ \<Rightarrow>
                            Inr (EnvExpr rng base sch ANil None None
                                  (Some \<lparr>Receiver = defRange (v_def receiver) environment,
                                         Accessors = [accessor]\<rparr>)
                                  None None None)))
              | JoinExpr n delimiter vs \<Rightarrow>
                  (case export delimiter environment of
                     Inl p \<Rightarrow> Inl p
                   | Inr d \<Rightarrow>
                       (case export vs environment of
                          Inl p \<Rightarrow> Inl p
                        | Inr v \<Rightarrow>
                            Inr (EnvExpr rng base sch ANil None None None None None
                                  (Some (B_Tuple [B_String, B_ArrayItems B_String],
                                         listArg [d, v])))))
              | OpenExpr n provider inputs inputSchema \<Rightarrow>
                  (case export provider environment of
                     Inl p \<Rightarrow> Inl p
                   | Inr pr \<Rightarrow>
                       (case export inputs environment of
                          Inl p \<Rightarrow> Inl p
                        | Inr inp \<Rightarrow>
                            Inr (EnvExpr rng base sch ANil None None None None None
                                  (Some (B_Record [(''provider'', B_String),
                                                   (''inputs'', B_Schema inputSchema)],
                                         objectArg [(''provider'', pr), (''inputs'', inp)])))))
              | SecretExpr n v \<Rightarrow>
                  (case export v environment of
                     Inl p \<Rightarrow> Inl p
                   | Inr arg \<Rightarrow>
                       Inr (EnvExpr rng base sch ANil None None None None None
                             (Some (B_Always, arg))))
              | ToBase64Expr n v \<Rightarrow>
                  (case export v environment of
                     Inl p \<Rightarrow> Inl p
                   | Inr arg \<Rightarrow>
                       Inr (EnvExpr rng base sch ANil None None None None None
                             (Some (B_String, arg))))
              | ToJSONExpr n v \<Rightarrow>
                  (case export v environment of
                     Inl p \<Rightarrow> Inl p
                   | Inr arg \<Rightarrow>
                       Inr (EnvExpr rng base sch ANil None None None None None
                             (Some (B_Always, arg))))
              | ToStringExpr n v \<Rightarrow>
                  (case export v environment of
                     Inl p \<Rightarrow> Inl p
                   | Inr arg \<Rightarrow>
                       Inr (EnvExpr rng base sch ANil None None None None None
                             (Some (B_Always, arg))))
              | ListExpr n elements \<Rightarrow>
                  (case export_list elements environment of
                     Inl p \<Rightarrow> Inl p
                   | Inr es \<Rightarrow>
                       Inr (EnvExpr rng base sch ANil None None None (Some es) None None))
              | ObjectExpr n properties \<Rightarrow>
                  (case export_object properties environment of
                     Inl p \<Rightarrow> Inl p
                   | Inr ps \<Rightarrow>
                       Inr (EnvExpr rng base sch ANil None None None None (Some ps) None))
              | OtherExpr n \<Rightarrow> Inl InvalidExprType))"
| "export_list [] environment = Inr []"
| "export_list (el # elements) environment =
     (case export el environment of
        Inl p \<Rightarrow> Inl p
      | Inr e \<Rightarrow>
          (case export_list elements environment of
             Inl p \<Rightarrow> Inl p
           | Inr es \<Rightarrow> Inr (e # es)))"
| "export_object [] environment = Inr []"
| "export_object ((k, v) # properties) environment =
     (case export v environment of
        Inl p \<Rightarrow> Inl p
      | Inr e \<Rightarrow>
          (case export_object properties environment of
             Inl p \<Rightarrow> Inl p
           | Inr ps \<Rightarrow> Inr ((k, e) # ps)))"
  by pat_completeness auto

termination
  apply (relation "measure (\<lambda>a. case a of
        Inl (x, environment) \<Rightarrow> 2 * size x + 1
      | Inr (Inl (xs, environment)) \<Rightarrow> 2 * size_list size xs
      | Inr (Inr (ps, environment)) \<Rightarrow> 2 * size_list (size_prod (\<lambda>_. 0) size) ps)")
  apply (auto dest: size_x_base size_x_children)
  done

declare validateSchemaType.simps [simp del] validateSchemaArray.simps [simp del]
  validateSchemaObject.simps [simp del]
declare validateValue.simps [simp del] validateElement.simps [simp del]
  validateType.simps [simp del] validateArray.simps [simp del] validateObject.simps [simp del]
declare export.simps [simp del]

section \<open>Specification-level notions and sample data\<close>

text \<open>The zero value of the schema struct, and schemas that set single clauses of it.\<close>

definition zeroClauses :: schema_clauses where
  "zeroClauses = \<lparr>Never = False, Always = False, Type = [], Const = ANil, Enum = [],
     MultipleOf = [], Minimum = [], ExclusiveMinimum = [], Maximum = [], ExclusiveMaximum = [],
     multipleOf = None, minimum = None, exclusiveMinimum = None, maximum = None,
     exclusiveMaximum = None, MinLength = None, MaxLength = None, pattern = None,
     MinItems = None, MaxItems = None, MinProperties = None, MaxProperties = None,
     Required = [], DependentRequired = [], compileError = None\<rparr>"

definition typed :: "string \<Rightarrow> schema" where
  "typed t = Schema (zeroClauses\<lparr>Type := t\<rparr>) [] None [] None"

definition never :: schema where
  "never = Schema (zeroClauses\<lparr>Never := True\<rparr>) [] None [] None"

definition always :: schema where
  "always = Schema (zeroClauses\<lparr>Always := True\<rparr>) [] None [] None"

definition node_at :: "int \<Rightarrow> ast_kind \<Rightarrow> ast_Expr" where
  "node_at l k = \<lparr>kind = k, syntax_range = Some \<lparr>Filename = ''env'',
     Start = \<lparr>Line = l, Column = 1, Byte = 0\<rparr>, End_hcl = \<lparr>Line = l, Column = 9, Byte = 8\<rparr>\<rparr>\<rparr>"

definition lit :: "int \<Rightarrow> ast_kind \<Rightarrow> expr" where
  "lit l k = Expr [] (LiteralExpr (node_at l k)) None None 2 False"

definition top :: "expr \<Rightarrow> validationLoc" where
  "top x = \<lparr>loc_x = x, loc_path = [], loc_prefix = False\<rparr>"

definition numberSchema :: "schema_clauses \<Rightarrow> schema" where
  "numberSchema c = Schema (c\<lparr>Type := ''number''\<rparr>) [] None [] None"

definition five :: validationLoc where
  "five = top (lit 1 (NumberExpr ''5''))"

definition closedObject :: schema where
  "closedObject = Schema (zeroClauses\<lparr>Type := ''object''\<rparr>) [] None [] (Some never)"

definition recordObject :: "string list \<Rightarrow> schema" where
  "recordObject req = Schema (zeroClauses\<lparr>Type := ''object'', Required := req\<rparr>) [] None [] None"

definition dependentObject :: schema where
  "dependentObject = Schema (zeroClauses\<lparr>Type := ''object'', Required := [''a''],
      DependentRequired := [(''k'', [''b''])]\<rparr>) [] None [] None"

definition openObject :: "string list \<Rightarrow> schema option \<Rightarrow> schema" where
  "openObject req additional =
     Schema (zeroClauses\<lparr>Type := ''object'', Required := req\<rparr>) [] None [] additional"

definition symbolExpr :: "int \<Rightarrow> expr" where
  "symbolExpr l = Expr [] (SymbolExpr (node_at l OtherSyntax) []) None None 2 False"

text \<open>The conjunction of a list of checks, with their diagnostics in order.\<close>

definition all_of :: "(bool \<times> diag list) list \<Rightarrow> bool \<times> diag list" where
  "all_of rs = (list_all fst rs, concat (map snd rs))"

text \<open>The last check of \<open>validateSchemaArray\<close>, as a list of at most one check.\<close>

definition tailCheck :: "schema option \<Rightarrow> schema option \<Rightarrow> validationLoc \<Rightarrow> (bool \<times> diag list) list" where
  "tailCheck xitems aitems loc =
     (case xitems of
        None \<Rightarrow> []
      | Some it \<Rightarrow> if \<not> Never (clauses it) then [validateSchemaType (Some it) aitems loc] else [])"

definition arraySchema :: "schema option list \<Rightarrow> schema option \<Rightarrow> schema" where
  "arraySchema prefixItems items = Schema (zeroClauses\<lparr>Type := ''array''\<rparr>) prefixItems items [] None"

text \<open>Values defined by a literal at line \<open>l\<close>, and an unknown value defined by a symbol.\<close>

definition strValue :: "int \<Rightarrow> string \<Rightarrow> val" where
  "strValue l s = Value (lit l (StringExpr s)) (Some (typed ''string'')) False False (VString s)"

definition numValue :: "int \<Rightarrow> string \<Rightarrow> val" where
  "numValue l n = Value (lit l (NumberExpr n)) (Some (typed ''number'')) False False (VNumber n)"

definition objValue :: "int \<Rightarrow> (string \<times> val) list \<Rightarrow> val" where
  "objValue l m = Value (symbolExpr l) (Some (typed ''object'')) False False (VObject m)"

definition arrValue :: "int \<Rightarrow> val list \<Rightarrow> val" where
  "arrValue l a = Value (symbolExpr l) (Some (typed ''array'')) False False (VArray a)"


lemma size_list_elem: "c \<in> set cs \<Longrightarrow> f c < Suc (size_list f cs)"
  by (metis less_Suc_eq_le size_list_estimation' order_refl)

lemma size_list_entry: "(k, y) \<in> set c \<Longrightarrow> f y < Suc (size_list (size_prod (\<lambda>_. 0) f) c)"
proof -
  assume "(k, y) \<in> set c"
  then have "size_prod (\<lambda>_. 0) f (k, y) \<le> size_list (size_prod (\<lambda>_. 0) f) c"
    by (metis size_list_estimation' order_refl)
  then show ?thesis by simp
qed

lemma size_v_elem: "v_repr v = VArray a \<Longrightarrow> x \<in> set a \<Longrightarrow> size x < size v"
  using size_v_repr [of v] size_list_elem [of x a size] by simp

lemma size_v_entry: "v_repr v = VObject m \<Longrightarrow> (k, x) \<in> set m \<Longrightarrow> size x < size v"
  using size_v_repr [of v] size_list_entry [of k x m size] by simp

text \<open>
  The keys of a Go map are distinct: \<open>wf_any\<close> and \<open>wf_val\<close> say so of every object
  inside a literal and inside a value.
\<close>

function wf_any :: "any \<Rightarrow> bool" where
  "wf_any (AArray cs) = list_all wf_any cs"
| "wf_any (AObject c) = (distinct (map fst c) \<and> list_all wf_any (map snd c))"
| "wf_any ANil = True"
| "wf_any (ABool b) = True"
| "wf_any (ANumber n) = True"
| "wf_any (AString s) = True"
| "wf_any AOther = True"
  by pat_completeness auto
termination
  apply (relation "measure size")
  apply (auto dest: size_list_elem [where f = size] size_list_entry [where f = size])
  done

function wf_val :: "val \<Rightarrow> bool" where
  "wf_val v =
     (case v_repr v of
        VArray a \<Rightarrow> list_all wf_val a
      | VObject m \<Rightarrow> distinct (map fst m) \<and> list_all wf_val (map snd m)
      | _ \<Rightarrow> True)"
  by pat_completeness auto
termination
  apply (relation "measure size")
  apply (auto dest: size_v_elem size_v_entry)
  done

text \<open>
  Deep equality of a value and a JSON literal, as the specification words it: null,
  booleans and strings by equality, numbers by equality of their JSON texts, arrays
  element by element with equal lengths, objects key by key with equal key sets.
\<close>

function deepEqual :: "val \<Rightarrow> any \<Rightarrow> bool" where
  "deepEqual v ANil = (case v_repr v of VNil \<Rightarrow> True | _ \<Rightarrow> False)"
| "deepEqual v (ABool c) = (case v_repr v of VBool b \<Rightarrow> b = c | _ \<Rightarrow> False)"
| "deepEqual v (ANumber c) = (case v_repr v of VNumber n \<Rightarrow> n = c | _ \<Rightarrow> False)"
| "deepEqual v (AString c) = (case v_repr v of VString s \<Rightarrow> s = c | _ \<Rightarrow> False)"
| "deepEqual v (AArray cs) =
     (case v_repr v of VArray a \<Rightarrow> list_all2 deepEqual a cs | _ \<Rightarrow> False)"
| "deepEqual v (AObject c) =
     (case v_repr v of
        VObject m \<Rightarrow>
          set (map fst m) = set (map fst c)
          \<and> list_all (\<lambda>k. case map_of m k of
                             None \<Rightarrow> False
                           | Some x \<Rightarrow> (case map_of c k of
                                         None \<Rightarrow> False
                                       | Some y \<Rightarrow> deepEqual x y))
                (map fst c)
      | _ \<Rightarrow> False)"
| "deepEqual v AOther = False"
  by pat_completeness auto
termination
  apply (relation "measure (\<lambda>(v, c). size c)")
  apply (auto dest: size_list_elem [where f = size] size_list_entry [where f = size] map_of_SomeD)
  done

declare wf_val.simps [simp del]

definition constSchema :: "any \<Rightarrow> any list \<Rightarrow> schema" where
  "constSchema c e = Schema (zeroClauses\<lparr>Const := c, Enum := e\<rparr>) [] None [] None"

text \<open>
  A single clause of a validator: when it is violated it fails with its diagnostic.
  \<open>all_of_opt\<close> is the conjunction of checks that may panic.  \<open>multipleOfClause\<close> is the
  \<open>multipleOf\<close> clause of \<open>validateNumber\<close>.
\<close>

definition clause :: "bool \<Rightarrow> diag \<Rightarrow> bool \<times> diag list" where
  "clause violated d = (if violated then (False, [d]) else (True, []))"

definition all_of_opt :: "(bool \<times> diag list) option list \<Rightarrow> (bool \<times> diag list) option" where
  "all_of_opt rs = (if None \<in> set rs then None else Some (all_of (map the rs)))"

definition multipleOfClause :: "Float \<Rightarrow> schema \<Rightarrow> validationLoc \<Rightarrow> (bool \<times> diag list) option" where
  "multipleOfClause n accept loc =
     (case multipleOf (clauses accept) of
        None \<Rightarrow> Some (True, [])
      | Some m \<Rightarrow>
          (case Quo n m of
             None \<Rightarrow> None
           | Some q \<Rightarrow>
               Some (clause (\<not> IsInt q)
                      (validationErrorf loc ''expected a multiple of %v''
                         [FString (MultipleOf (clauses accept))]))))"


text \<open>
  The \<open>multipleOf\<close> test as the specification words it: the exact quotient of the two
  decimal literals is an integer.
\<close>

definition exactMultiple :: "string \<Rightarrow> string \<Rightarrow> bool" where
  "exactMultiple v m =
     (case scanFloat v of
        Inl err \<Rightarrow> False
      | Inr a \<Rightarrow> (case scanFloat m of
                    Inl err \<Rightarrow> False
                  | Inr b \<Rightarrow> b \<noteq> 0 \<and> a / b = of_int \<lfloor>a / b\<rfloor>))"

text \<open>A number schema whose \<open>multipleOf\<close> is compiled the way \<open>validateNumber\<close> parses.\<close>

definition multipleSchema :: "string \<Rightarrow> schema" where
  "multipleSchema m = Schema (zeroClauses\<lparr>Type := ''number'', MultipleOf := m,
      multipleOf := (case ParseFloat m of Inr f \<Rightarrow> Some f | Inl err \<Rightarrow> None)\<rparr>) [] None [] None"

text \<open>
  A chain of nested access expressions: \<open>innermost\<close> is the defining expression of the
  innermost receiver that is not itself an access, \<open>chain_accessors\<close> lists the accessors
  in the order they are applied.  \<open>chain_exports\<close> says that \<open>export\<close> does not panic on
  the chain: every accessor is a name or a string or integer subscript, and the base of
  every access of the chain exports.
\<close>

function innermost :: "expr \<Rightarrow> expr" where
  "innermost x =
     (case x_repr x of AccessExpr n receiver a \<Rightarrow> innermost (v_def receiver) | _ \<Rightarrow> x)"
  by pat_completeness auto
termination
  by (relation "measure size") (auto dest: size_x_children(1))

function chain_accessors :: "expr \<Rightarrow> PropertyAccessor list" where
  "chain_accessors x =
     (case x_repr x of
        AccessExpr n receiver a \<Rightarrow> chain_accessors (v_def receiver) @ [a]
      | _ \<Rightarrow> [])"
  by pat_completeness auto
termination
  by (relation "measure size") (auto dest: size_x_children(1))

definition returns :: "'e + 'a \<Rightarrow> bool" where
  "returns r = (case r of Inl e \<Rightarrow> False | Inr y \<Rightarrow> True)"

function chain_exports :: "expr \<Rightarrow> string \<Rightarrow> bool" where
  "chain_exports x environment =
     (case x_repr x of
        AccessExpr n receiver a \<Rightarrow>
          (case x_base x of None \<Rightarrow> True | Some b \<Rightarrow> returns (export (v_def b) environment))
          \<and> returns (exportAccessor a)
          \<and> (case x_repr (v_def receiver) of
                AccessExpr n' receiver' a' \<Rightarrow> chain_exports (v_def receiver) environment
              | _ \<Rightarrow> True)
      | _ \<Rightarrow> False)"
  by pat_completeness auto
termination
  by (relation "measure (\<lambda>(x, e). size x)") (auto dest: size_x_children(1))

declare innermost.simps [simp del] chain_accessors.simps [simp del] chain_exports.simps [simp del]

text \<open>An exported record that is an access and nothing else.\<close>

definition single_access :: "env_Expr \<Rightarrow> env_Range \<Rightarrow> Accessor list \<Rightarrow> bool" where
  "single_access ex r accs =
     (Access ex = Some \<lparr>Receiver = r, Accessors = accs\<rparr> \<and> Literal ex = ANil
      \<and> Interpolate ex = None \<and> Symbol ex = None \<and> List_e ex = None \<and> Object ex = None
      \<and> Builtin ex = None)"

definition accessExpr :: "int \<Rightarrow> expr \<Rightarrow> PropertyAccessor \<Rightarrow> expr" where
  "accessExpr l receiver a =
     Expr [] (AccessExpr (node_at l OtherSyntax) (Value receiver None False False VNil) a)
       None None 2 False"

definition rangeAt :: "int \<Rightarrow> env_Range" where
  "rangeAt l = \<lparr>Environment = ''env'', Begin = \<lparr>Line = l, Column = 1, Byte = 0\<rparr>,
                End = \<lparr>Line = l, Column = 9, Byte = 8\<rparr>\<rparr>"

section \<open>Properties\<close>

subsection \<open>Numeric bounds\<close>

lemma ParseFloat_5: "ParseFloat ''5'' = Inr (Finite 64 5)"
  by code_simp

text \<open>
  C1.  A number passes \<open>minimum\<close> iff it is at least the bound, \<open>exclusiveMinimum\<close> iff it
  is greater, \<open>maximum\<close> iff it is at most the bound, \<open>exclusiveMaximum\<close> iff it is less.
  The code compares the other way round: the number 5 is rejected by \<open>minimum: 3\<close>,
  \<open>exclusiveMinimum: 3\<close>, \<open>maximum: 7\<close> and \<open>exclusiveMaximum: 7\<close>, each time with the
  diagnostic that asks for what 5 already satisfies, and it is accepted by \<open>minimum: 7\<close>
  and by \<open>maximum: 3\<close>.
\<close>

theorem validateNumber_bounds_inverted:
  "validateNumber ''5''
     (numberSchema (zeroClauses\<lparr>Minimum := ''3'', minimum := Some (Finite 64 3)\<rparr>)) five =
     Some (False, [\<lparr>node = node_at 1 (NumberExpr ''5''),
                    format = ''expected a number greater than or equal to %v'',
                    args = [FString ''3'']\<rparr>])
   \<and> validateNumber ''5''
     (numberSchema (zeroClauses\<lparr>ExclusiveMinimum := ''3'',
        exclusiveMinimum := Some (Finite 64 3)\<rparr>)) five =
     Some (False, [\<lparr>node = node_at 1 (NumberExpr ''5''),
                    format = ''expected a number greater than %v'',
                    args = [FString ''3'']\<rparr>])
   \<and> validateNumber ''5''
     (numberSchema (zeroClauses\<lparr>Maximum := ''7'', maximum := Some (Finite 64 7)\<rparr>)) five =
     Some (False, [\<lparr>node = node_at 1 (NumberExpr ''5''),
                    format = ''expected a number less than or equal to%v'',
                    args = [FString ''7'']\<rparr>])
   \<and> validateNumber ''5''
     (numberSchema (zeroClauses\<lparr>ExclusiveMaximum := ''7'',
        exclusiveMaximum := Some (Finite 64 7)\<rparr>)) five =
     Some (False, [\<lparr>node = node_at 1 (NumberExpr ''5''),
                    format = ''expected a number less than %v'',
                    args = [FString ''7'']\<rparr>])
   \<and> validateNumber ''5''
     (numberSchema (zeroClauses\<lparr>Minimum := ''7'', minimum := Some (Finite 64 7)\<rparr>)) five =
     Some (True, [])
   \<and> validateNumber ''5''
     (numberSchema (zeroClauses\<lparr>Maximum := ''3'', maximum := Some (Finite 64 3)\<rparr>)) five =
     Some (True, [])"
  by (simp add: validateNumber_def ParseFloat_5 numberSchema_def zeroClauses_def failed_def
      validationErrorf_def five_def top_def lit_def)

subsection \<open>Required keys of object schemas\<close>

lemma all_of_Nil [simp]: "all_of [] = (True, [])"
  by (simp add: all_of_def)

lemma all_of_Cons [simp]: "all_of (r # rs) = (fst r \<and> fst (all_of rs), snd r @ snd (all_of rs))"
  by (simp add: all_of_def)

lemma all_of_append: "all_of (rs @ ss) = (fst (all_of rs) \<and> fst (all_of ss), snd (all_of rs) @ snd (all_of ss))"
  by (simp add: all_of_def)

lemma checkRequired_fst: "fst (checkRequired xreq loc ra) = (set ra \<subseteq> set xreq)"
  by (induction ra) (auto simp: split_def Let_def)

lemma checkRequired_snd:
  "snd (checkRequired xreq loc ra) =
     map (\<lambda>name. validationErrorf (property loc name) ''missing required property'' [])
       (filter (\<lambda>name. name \<notin> set xreq) ra)"
  by (induction ra) (auto simp: split_def Let_def)

lemma checkDependentRequired_fst:
  "fst (checkDependentRequired xreq loc deps) =
     (\<forall>(name, req) \<in> set deps. name \<in> set xreq \<longrightarrow> set req \<subseteq> set xreq)"
  by (induction deps) (auto simp: split_def Let_def checkRequired_fst)

lemma checkDependentRequired_snd:
  "snd (checkDependentRequired xreq loc deps) =
     concat (map (\<lambda>(name, req). if name \<in> set xreq then snd (checkRequired xreq loc req) else []) deps)"
  by (induction deps) (auto simp: split_def Let_def)

lemma validateSchemaObject_nil:
  assumes "AdditionalProperties x = None"
  shows "validateSchemaObject x accept loc =
     (fst (validateSchemaObject_loop accept loc (Properties x))
        \<and> fst (checkRequired (Required (clauses x)) loc (Required (clauses accept)))
        \<and> fst (checkDependentRequired (Required (clauses x)) loc (DependentRequired (clauses accept))),
      snd (validateSchemaObject_loop accept loc (Properties x))
        @ snd (checkRequired (Required (clauses x)) loc (Required (clauses accept)))
        @ snd (checkDependentRequired (Required (clauses x)) loc (DependentRequired (clauses accept))))"
  using assms by (cases x) (simp add: validateSchemaObject.simps split_def Let_def)

lemma checkRequired_reports:
  "name \<in> set ra \<Longrightarrow> name \<notin> set xreq \<Longrightarrow>
   validationErrorf (property loc name) ''missing required property'' []
     \<in> set (snd (checkRequired xreq loc ra))"
  by (simp add: checkRequired_snd)

lemma checkDependentRequired_reports:
  "(name, req) \<in> set deps \<Longrightarrow> name \<in> set xreq \<Longrightarrow> dep \<in> set req \<Longrightarrow> dep \<notin> set xreq \<Longrightarrow>
   validationErrorf (property loc dep) ''missing required property'' []
     \<in> set (snd (checkDependentRequired xreq loc deps))"
  by (induction deps) (auto simp: split_def Let_def checkRequired_reports)

text \<open>
  C2 (as amended).  When the input schema has no \<open>additionalProperties\<close> schema (the
  pointer is nil), schema-versus-schema validation of object schemas succeeds only if
  every key the target requires is required by the input and, for every
  \<open>dependentRequired\<close> entry of the target whose trigger key the input requires, the
  input requires all the dependent keys; each missing key is reported with a
  \<open>missing required property\<close> diagnostic at the location of that property.
\<close>

theorem validateSchemaObject_required:
  assumes "AdditionalProperties x = None"
  shows "(fst (validateSchemaObject x accept loc) \<longrightarrow>
            set (Required (clauses accept)) \<subseteq> set (Required (clauses x))
            \<and> (\<forall>(name, req) \<in> set (DependentRequired (clauses accept)).
                  name \<in> set (Required (clauses x)) \<longrightarrow> set req \<subseteq> set (Required (clauses x))))
       \<and> (\<forall>name \<in> set (Required (clauses accept)). name \<notin> set (Required (clauses x)) \<longrightarrow>
            validationErrorf (property loc name) ''missing required property'' []
              \<in> set (snd (validateSchemaObject x accept loc)))
       \<and> (\<forall>(name, req) \<in> set (DependentRequired (clauses accept)).
            name \<in> set (Required (clauses x)) \<longrightarrow>
            (\<forall>dep \<in> set req. dep \<notin> set (Required (clauses x)) \<longrightarrow>
               validationErrorf (property loc dep) ''missing required property'' []
                 \<in> set (snd (validateSchemaObject x accept loc))))"
proof (intro conjI)
  show "fst (validateSchemaObject x accept loc) \<longrightarrow>
          set (Required (clauses accept)) \<subseteq> set (Required (clauses x))
          \<and> (\<forall>(name, req) \<in> set (DependentRequired (clauses accept)).
                name \<in> set (Required (clauses x)) \<longrightarrow> set req \<subseteq> set (Required (clauses x)))"
    by (simp add: validateSchemaObject_nil [OF assms] checkRequired_fst
        checkDependentRequired_fst)
next
  show "\<forall>name \<in> set (Required (clauses accept)). name \<notin> set (Required (clauses x)) \<longrightarrow>
          validationErrorf (property loc name) ''missing required property'' []
            \<in> set (snd (validateSchemaObject x accept loc))"
    by (simp add: validateSchemaObject_nil [OF assms] checkRequired_reports)
next
  show "\<forall>(name, req) \<in> set (DependentRequired (clauses accept)).
          name \<in> set (Required (clauses x)) \<longrightarrow>
          (\<forall>dep \<in> set req. dep \<notin> set (Required (clauses x)) \<longrightarrow>
             validationErrorf (property loc dep) ''missing required property'' []
               \<in> set (snd (validateSchemaObject x accept loc)))"
    using checkDependentRequired_reports
    by (fastforce simp: validateSchemaObject_nil [OF assms])
qed

text \<open>
  C2 as stated fails: when the input constrains \<open>additionalProperties\<close> to \<open>never\<close>, the
  required lists are not compared at all.
\<close>

theorem validateSchemaObject_never_counterexample:
  "AdditionalProperties closedObject = Some never \<and> Never (clauses never)
   \<and> ''a'' \<in> set (Required (clauses (recordObject [''a''])))
   \<and> ''a'' \<notin> set (Required (clauses closedObject))
   \<and> validateSchemaObject closedObject (recordObject [''a'']) (top (symbolExpr 1)) = (True, [])
   \<and> validateSchemaType (Some closedObject) (Some (recordObject [''a''])) (top (symbolExpr 1))
       = (True, [])"
  by (simp add: closedObject_def recordObject_def never_def zeroClauses_def
      validateSchemaObject.simps validateSchemaType.simps isAny_def checkType_def)

theorem validateSchemaObject_required_witness:
  "AdditionalProperties (recordObject [''k'']) = None
   \<and> \<not> fst (validateSchemaObject (recordObject [''k'']) dependentObject (top (symbolExpr 1)))
   \<and> snd (validateSchemaObject (recordObject [''k'']) dependentObject (top (symbolExpr 1))) =
       [\<lparr>node = node_at 1 OtherSyntax, format = ''.a: missing required property'', args = []\<rparr>,
        \<lparr>node = node_at 1 OtherSyntax, format = ''.b: missing required property'', args = []\<rparr>]"
  using validateSchemaObject_required [of "recordObject [''k'']" dependentObject "top (symbolExpr 1)"]
  by (simp add: recordObject_def dependentObject_def zeroClauses_def validateSchemaObject.simps
      validationErrorf_def property_def top_def symbolExpr_def joinKey_def)

subsection \<open>Array schemas\<close>

lemma all_of_single: "all_of [r] = r"
  by (simp add: all_of_def)

lemma loop_tail: "validateSchemaArray_loop xitems aitems loc [] [] i = all_of (tailCheck xitems aitems loc)"
  by (simp add: tailCheck_def all_of_single split: option.splits)

lemma loop_asurplus:
  "validateSchemaArray_loop xitems aitems loc [] aprefix i =
     all_of (map (\<lambda>j. validateSchemaType xitems (aprefix ! j) (index loc (i + j))) [0..<length aprefix]
             @ tailCheck xitems aitems loc)"
proof (induction aprefix arbitrary: i)
  case Nil
  show ?case by (simp only: loop_tail list.size upt_0 list.map append_Nil)
next
  case (Cons ap aprefix)
  show ?case
    by (simp add: Cons.IH split_def Let_def map_upt_Suc del: upt_Suc)
qed

lemma loop_xsurplus:
  "validateSchemaArray_loop xitems aitems loc xprefix [] i =
     all_of (map (\<lambda>j. validateSchemaType (xprefix ! j) aitems (index loc (i + j))) [0..<length xprefix]
             @ tailCheck xitems aitems loc)"
proof (induction xprefix arbitrary: i)
  case Nil
  show ?case by (simp only: loop_tail list.size upt_0 list.map append_Nil)
next
  case (Cons xp xprefix)
  show ?case
    by (simp add: Cons.IH split_def Let_def map_upt_Suc del: upt_Suc)
qed

lemma map_upt_shift:
  "map f [Suc a..<Suc b] = map (\<lambda>j. f (Suc j)) [a..<b]"
  by (simp add: map_Suc_upt [symmetric] del: upt_Suc)

lemma loop_general:
  "validateSchemaArray_loop xitems aitems loc xprefix aprefix i =
     all_of (map (\<lambda>j. validateSchemaType (xprefix ! j) (aprefix ! j) (index loc (i + j)))
               [0..<min (length xprefix) (length aprefix)]
             @ map (\<lambda>j. validateSchemaType (xprefix ! j) aitems (index loc (i + j)))
                 [length aprefix..<length xprefix]
             @ map (\<lambda>j. validateSchemaType xitems (aprefix ! j) (index loc (i + j)))
                 [length xprefix..<length aprefix]
             @ tailCheck xitems aitems loc)"
proof (induction xprefix aprefix arbitrary: i rule: list_induct2')
  case 1
  show ?case by (simp add: loop_tail del: validateSchemaArray_loop.simps)
next
  case (2 xp xprefix)
  show ?case by (simp add: loop_xsurplus del: upt_Suc validateSchemaArray_loop.simps)
next
  case (3 ap aprefix)
  show ?case by (simp add: loop_asurplus del: upt_Suc validateSchemaArray_loop.simps)
next
  case (4 xp xprefix ap aprefix)
  show ?case
    by (simp add: "4.IH" split_def Let_def map_upt_Suc map_upt_shift all_of_append del: upt_Suc)
qed

lemma tailCheck_eq:
  "tailCheck xitems aitems loc =
     (if xitems \<noteq> None \<and> \<not> Never (clauses (the xitems))
      then [validateSchemaType xitems aitems loc] else [])"
  by (cases xitems) (simp_all add: tailCheck_def)

text \<open>
  C5 (as amended).  For array schemas the common \<open>prefixItems\<close> positions are validated
  pairwise; surplus \<open>prefixItems\<close> of the input are validated against the target's
  \<open>items\<close>, surplus \<open>prefixItems\<close> of the target validate the input's \<open>items\<close>; finally,
  when the input has an \<open>items\<close> schema and it is not \<open>never\<close>, it is validated against
  the target's \<open>items\<close>.  The verdict is the conjunction of the checks made, and the
  diagnostics are theirs, in this order.
\<close>

theorem validateSchemaArray_checks:
  "validateSchemaArray x accept loc =
     all_of (map (\<lambda>j. validateSchemaType (PrefixItems x ! j) (PrefixItems accept ! j) (index loc j))
               [0..<min (length (PrefixItems x)) (length (PrefixItems accept))]
             @ map (\<lambda>j. validateSchemaType (PrefixItems x ! j) (Items accept) (index loc j))
                 [length (PrefixItems accept)..<length (PrefixItems x)]
             @ map (\<lambda>j. validateSchemaType (Items x) (PrefixItems accept ! j) (index loc j))
                 [length (PrefixItems x)..<length (PrefixItems accept)]
             @ (if Items x \<noteq> None \<and> \<not> Never (clauses (the (Items x)))
                then [validateSchemaType (Items x) (Items accept) loc] else []))"
proof (cases x)
  case (Schema xf xprefix xitems xprops xadd)
  then show ?thesis
    by (simp only: validateSchemaArray.simps schema.case schema.sel loop_general tailCheck_eq
        add_0)
qed

text \<open>
  C5 as stated fails: an input whose \<open>items\<close> is \<open>never\<close> is not compared with the
  target's \<open>items\<close>, although that comparison would fail.
\<close>

theorem validateSchemaArray_tail_counterexample:
  "validateSchemaArray (arraySchema [] (Some never)) (arraySchema [] (Some (typed ''string'')))
      (top (symbolExpr 1)) = (True, [])
   \<and> \<not> fst (validateSchemaType (Items (arraySchema [] (Some never)))
               (Items (arraySchema [] (Some (typed ''string'')))) (top (symbolExpr 1)))"
  by (simp add: arraySchema_def never_def typed_def zeroClauses_def validateSchemaArray.simps
      validateSchemaType.simps isAny_def checkType_def typeError_def)

theorem validateSchemaArray_checks_witness:
  "validateSchemaArray (arraySchema [Some (typed ''string''), Some (typed ''number'')] None)
      (arraySchema [Some (typed ''string'')] (Some (typed ''string''))) (top (symbolExpr 1)) =
     (False, [\<lparr>node = node_at 1 OtherSyntax, format = ''[1]: expected %s, got %s'',
               args = [FString ''string'', FString ''number'']\<rparr>])"
  apply (subst validateSchemaArray_checks)
  apply code_simp
  done

lemma itoa_small: "itoa 0 = ''0''" "itoa 1 = ''1''" "itoa 2 = ''2''" "itoa 10 = ''10''" "itoa 123 = ''123''"
  by code_simp+

subsection \<open>Nil schemas\<close>

lemma isAny_nil: "isAny None"
  by (simp add: isAny_def)

lemma isAny_always: "isAny (Some s) = Always (clauses s)"
  by (simp add: isAny_def)

lemma validateSchemaType_any_accept: "isAny target \<Longrightarrow> validateSchemaType x target loc = (True, [])"
  by (simp add: validateSchemaType.simps)

lemma validateSchemaType_any_input:
  "isAny x \<Longrightarrow> validateSchemaType x target loc =
     (if isAny target then (True, [])
      else if Never (clauses (the target)) then (False, []) else (True, []))"
  by (simp add: validateSchemaType.simps)

lemma validateElement_any:
  "Compile target = None \<Longrightarrow> isAny target \<Longrightarrow> validateElement v target loc = Some (True, [])"
  by (simp add: validateElement.simps)

lemma validateValue_any:
  "Compile target = None \<Longrightarrow> isAny target \<Longrightarrow> validateValue v target loc = Some (True, [])"
  by (simp add: validateValue.simps validateElement_any)

lemma validateArray_loop_nil_items:
  "Compile None = None \<Longrightarrow> Items accept = None \<Longrightarrow> length (PrefixItems accept) \<le> i \<Longrightarrow>
   validateArray_loop vs i accept loc = Some (True, [])"
  by (induction vs arbitrary: i) (simp_all add: validateValue_any isAny_nil)

lemma validateObject_loop_nil_additional:
  "Compile None = None \<Longrightarrow> AdditionalProperties accept = None \<Longrightarrow>
   \<forall>k \<in> set ks. map_of (Properties accept) k = None \<Longrightarrow>
   \<forall>k \<in> set ks. property_of v k \<noteq> None \<Longrightarrow>
   validateObject_loop v ks accept loc = Some (True, [])"
  by (induction ks) (auto simp: validateValue_any isAny_nil)

lemma validateSchemaArray_loop_nil_items:
  "validateSchemaArray_loop xitems None loc xprefix [] i = (True, [])"
  by (induction xprefix arbitrary: i)
    (auto simp: validateSchemaType_any_accept isAny_nil split: option.splits)

lemma validateSchemaObject_loop_nil_additional:
  "AdditionalProperties accept = None \<Longrightarrow> \<forall>(name, px) \<in> set xprops. map_of (Properties accept) name = None \<Longrightarrow>
   validateSchemaObject_loop accept loc xprops = (True, [])"
  by (induction xprops) (auto simp: validateSchemaType_any_accept isAny_nil)

lemma validateSchemaObject_nil_all_of:
  "AdditionalProperties x = None \<Longrightarrow>
   validateSchemaObject x accept loc =
     all_of [validateSchemaObject_loop accept loc (Properties x),
             checkRequired (Required (clauses x)) loc (Required (clauses accept)),
             checkDependentRequired (Required (clauses x)) loc
               (DependentRequired (clauses accept))]"
  by (simp add: validateSchemaObject_nil all_of_def)

text \<open>
  C10 (as amended).  A nil schema is treated as \<open>always\<close> where it is the accepting
  schema and where it is the input of a schema-versus-schema check.  Validating a
  value against a nil accepting schema reports what compiling the nil schema reports and
  nothing else: provided that this is no error, it succeeds with no diagnostics for any
  value, as it does against an \<open>always\<close> schema that compiles.  In schema-versus-schema validation a nil target accepts every input,
  as an \<open>always\<close> target does, and a nil input has the verdict of an \<open>always\<close> input: every
  target that is not \<open>never\<close> accepts it.  Nil \<open>items\<close> and nil \<open>additionalProperties\<close> of
  the accepting schema accept everything where the validators recurse into them: the
  elements past the \<open>prefixItems\<close>, the properties not listed in \<open>properties\<close>, and the
  same positions of an input schema.  The \<open>items\<close> and \<open>additionalProperties\<close> of an
  input schema are tested as pointers instead: with nil \<open>items\<close> the check of the tail
  is skipped, with nil \<open>additionalProperties\<close> the required keys are compared.
\<close>

theorem nil_accepting_schema_is_any:
  "validateElement v None loc =
     (case Compile None of
        None \<Rightarrow> Some (True, [])
      | Some err \<Rightarrow>
          Some (False, [validationErrorf loc ''internal error: invalid schema: %w'' [FString err]]))
   \<and> (Compile None = None \<longrightarrow>
      validateValue v None loc = Some (True, [])
      \<and> validateElement v None loc = Some (True, [])
      \<and> (Always (clauses s) \<and> Compile (Some s) = None \<longrightarrow>
           validateElement v (Some s) loc = validateElement v None loc))
   \<and> validateSchemaType x None loc = (True, [])
   \<and> (Always (clauses s) \<longrightarrow>
        validateSchemaType x (Some s) loc = validateSchemaType x None loc
        \<and> validateSchemaType (Some s) target loc = validateSchemaType None target loc)
   \<and> (\<not> Never (clauses a) \<longrightarrow> validateSchemaType None (Some a) loc = (True, []))
   \<and> (Compile None = None \<and> Items accept = None \<and> length (PrefixItems accept) \<le> i \<longrightarrow>
        validateArray_loop vs i accept loc = Some (True, []))
   \<and> (Compile None = None \<and> AdditionalProperties accept = None
        \<and> (\<forall>k \<in> set ks. map_of (Properties accept) k = None \<and> property_of v k \<noteq> None) \<longrightarrow>
        validateObject_loop v ks accept loc = Some (True, []))
   \<and> validateSchemaArray_loop xitems None loc xprefix [] i = (True, [])
   \<and> (AdditionalProperties accept = None
        \<and> (\<forall>(name, px) \<in> set xprops. map_of (Properties accept) name = None) \<longrightarrow>
        validateSchemaObject_loop accept loc xprops = (True, []))
   \<and> validateSchemaArray_loop None aitems loc [] [] i = (True, [])
   \<and> (AdditionalProperties input = None \<longrightarrow>
        validateSchemaObject input accept loc =
          all_of [validateSchemaObject_loop accept loc (Properties input),
                  checkRequired (Required (clauses input)) loc (Required (clauses accept)),
                  checkDependentRequired (Required (clauses input)) loc
                    (DependentRequired (clauses accept))])"
proof (intro conjI impI)
  show "validateElement v None loc =
     (case Compile None of
        None \<Rightarrow> Some (True, [])
      | Some err \<Rightarrow>
          Some (False, [validationErrorf loc ''internal error: invalid schema: %w'' [FString err]]))"
    by (simp add: validateElement.simps isAny_nil split: option.splits)
next
  assume c: "Compile None = None"
  show "validateValue v None loc = Some (True, [])"
    using c by (simp add: validateValue_any isAny_nil)
  show n: "validateElement v None loc = Some (True, [])"
    using c by (simp add: validateElement_any isAny_nil)
  assume "Always (clauses s) \<and> Compile (Some s) = None"
  then show "validateElement v (Some s) loc = validateElement v None loc"
    by (simp add: n validateElement_any isAny_always)
next
  show "validateSchemaType x None loc = (True, [])"
    by (simp add: validateSchemaType_any_accept isAny_nil)
next
  assume "Always (clauses s)"
  then show "validateSchemaType x (Some s) loc = validateSchemaType x None loc"
    by (simp add: validateSchemaType_any_accept isAny_nil isAny_always)
next
  assume "Always (clauses s)"
  then show "validateSchemaType (Some s) target loc = validateSchemaType None target loc"
    by (simp add: validateSchemaType_any_input isAny_nil isAny_always)
next
  assume "\<not> Never (clauses a)"
  then show "validateSchemaType None (Some a) loc = (True, [])"
    by (simp add: validateSchemaType_any_input isAny_nil)
next
  assume "Compile None = None \<and> Items accept = None \<and> length (PrefixItems accept) \<le> i"
  then show "validateArray_loop vs i accept loc = Some (True, [])"
    by (simp add: validateArray_loop_nil_items)
next
  assume "Compile None = None \<and> AdditionalProperties accept = None
        \<and> (\<forall>k \<in> set ks. map_of (Properties accept) k = None \<and> property_of v k \<noteq> None)"
  then show "validateObject_loop v ks accept loc = Some (True, [])"
    by (simp add: validateObject_loop_nil_additional)
next
  show "validateSchemaArray_loop xitems None loc xprefix [] i = (True, [])"
    by (rule validateSchemaArray_loop_nil_items)
next
  assume "AdditionalProperties accept = None
        \<and> (\<forall>(name, px) \<in> set xprops. map_of (Properties accept) name = None)"
  then show "validateSchemaObject_loop accept loc xprops = (True, [])"
    by (simp add: validateSchemaObject_loop_nil_additional)
next
  show "validateSchemaArray_loop None aitems loc [] [] i = (True, [])"
    by simp
next
  assume "AdditionalProperties input = None"
  then show "validateSchemaObject input accept loc =
          all_of [validateSchemaObject_loop accept loc (Properties input),
                  checkRequired (Required (clauses input)) loc (Required (clauses accept)),
                  checkDependentRequired (Required (clauses input)) loc
                    (DependentRequired (clauses accept))]"
    by (rule validateSchemaObject_nil_all_of)
qed

text \<open>
  C10 as stated fails: a nil schema is not treated as \<open>always\<close> throughout validation.
  As the \<open>items\<close> of an input schema, nil is not compared with the \<open>items\<close> of the target,
  and \<open>always\<close> is: against \<open>items\<close> that are \<open>never\<close> the first passes and the second
  fails.  As the \<open>additionalProperties\<close> of an input schema, nil has the required keys
  compared, and \<open>always\<close> has not: against a target that requires a key the first fails
  and the second passes.
\<close>

theorem nil_input_subschema_counterexample:
  "validateSchemaArray (arraySchema [] None) (arraySchema [] (Some never)) (top (symbolExpr 1))
     = (True, [])
   \<and> validateSchemaArray (arraySchema [] (Some always)) (arraySchema [] (Some never))
       (top (symbolExpr 1)) = (False, [])
   \<and> validateSchemaObject (openObject [] None) (openObject [''a''] None) (top (symbolExpr 1))
     = (False, [\<lparr>node = node_at 1 OtherSyntax, format = ''.a: missing required property'',
                 args = []\<rparr>])
   \<and> validateSchemaObject (openObject [] (Some always)) (openObject [''a''] None)
       (top (symbolExpr 1)) = (True, [])"
  by code_simp

theorem nil_accepting_schema_is_any_witness:
  "Compile None = None
   \<and> validateValue (strValue 2 ''x'') None (top (symbolExpr 1)) = Some (True, [])
   \<and> validateElement (strValue 2 ''x'') (Some always) (top (symbolExpr 1)) = Some (True, [])
   \<and> validateSchemaType (Some (typed ''string'')) (Some always) (top (symbolExpr 1)) = (True, [])
   \<and> validateSchemaType (Some always) (Some never) (top (symbolExpr 1))
       = validateSchemaType None (Some never) (top (symbolExpr 1))
   \<and> validateSchemaType None (Some (typed ''string'')) (top (symbolExpr 1)) = (True, [])
   \<and> validateArray_loop [strValue 2 ''x''] 0 (arraySchema [] None) (top (symbolExpr 1))
       = Some (True, [])
   \<and> validateObject_loop (objValue 1 [(''k'', strValue 2 ''x'')]) [''k''] (openObject [] None)
         (top (symbolExpr 1)) = Some (True, [])
   \<and> validateSchemaObject_loop (openObject [] None) (top (symbolExpr 1))
         [(''k'', Some (typed ''string''))] = (True, [])
   \<and> validateSchemaObject (openObject [] None) (openObject [''a''] None) (top (symbolExpr 1))
       = (False, [\<lparr>node = node_at 1 OtherSyntax, format = ''.a: missing required property'',
                   args = []\<rparr>])"
  using nil_accepting_schema_is_any [where a = "typed ''string''" and accept = "arraySchema [] None"
      and i = 0 and vs = "[strValue 2 ''x'']" and loc = "top (symbolExpr 1)" and s = always
      and v = "strValue 2 ''x''" and x = "Some (typed ''string'')" and target = "Some never"]
    nil_accepting_schema_is_any [where accept = "openObject [] None" and ks = "[''k'']"
      and v = "objValue 1 [(''k'', strValue 2 ''x'')]" and loc = "top (symbolExpr 1)"
      and xprops = "[(''k'', Some (typed ''string''))]"]
    nil_accepting_schema_is_any [where accept = "openObject [''a''] None"
      and input = "openObject [] None" and loc = "top (symbolExpr 1)"]
  by (simp add: typed_def zeroClauses_def arraySchema_def openObject_def property_of_def
      objValue_def always_def Compile_def all_of_def property_def joinKey_def
      validationErrorf_def top_def symbolExpr_def node_at_def)

subsection \<open>Unknown values\<close>



subsection \<open>Constants and enumerations\<close>

lemma equalsConst_array_nth:
  "equalsConst_array a i cs = (\<forall>j<length cs. equalsConst (a ! (i + j)) (cs ! j))"
  by (induction cs arbitrary: i) (simp_all add: All_less_Suc2)

lemma equalsConst_map_all:
  "equalsConst_map m cs =
     (\<forall>(k, c) \<in> set cs. case map_of m k of None \<Rightarrow> False | Some v \<Rightarrow> equalsConst v c)"
proof (induction cs)
  case Nil
  show ?case by simp
next
  case (Cons a cs)
  obtain k c where a: "a = (k, c)" by (cases a)
  show ?case
    unfolding a by (cases "map_of m k") (simp_all add: Cons.IH)
qed

lemma wf_val_array: "wf_val v \<Longrightarrow> v_repr v = VArray a \<Longrightarrow> x \<in> set a \<Longrightarrow> wf_val x"
  by (subst (asm) wf_val.simps) (simp add: list_all_iff)

lemma wf_val_object:
  "wf_val v \<Longrightarrow> v_repr v = VObject m \<Longrightarrow> distinct (map fst m) \<and> (\<forall>(k, x) \<in> set m. wf_val x)"
  by (subst (asm) wf_val.simps) (auto simp: list_all_iff)

lemma keys_eq_iff:
  assumes dm: "distinct (map fst m)" and dc: "distinct (map fst c)"
  shows "(length m = length c \<and> (\<forall>(k, y) \<in> set c. case map_of m k of None \<Rightarrow> False | Some x \<Rightarrow> P x y))
     = (set (map fst m) = set (map fst c)
        \<and> list_all (\<lambda>k. case map_of m k of
                           None \<Rightarrow> False
                         | Some x \<Rightarrow> (case map_of c k of None \<Rightarrow> False | Some y \<Rightarrow> P x y))
              (map fst c))"
    (is "?L = ?R")
proof
  assume L: ?L
  have sub: "set (map fst c) \<subseteq> set (map fst m)"
  proof
    fix k assume "k \<in> set (map fst c)"
    then obtain y where "(k, y) \<in> set c" by auto
    with L have "map_of m k \<noteq> None" by (auto split: option.splits)
    then show "k \<in> set (map fst m)" by (simp add: map_of_eq_None_iff)
  qed
  have "card (set (map fst c)) = length c" using distinct_card [OF dc] by simp
  moreover have "card (set (map fst m)) = length m" using distinct_card [OF dm] by simp
  ultimately have "card (set (map fst m)) \<le> card (set (map fst c))" using L by simp
  with sub have eq: "set (map fst m) = set (map fst c)"
    using card_seteq [of "set (map fst m)" "set (map fst c)"] by simp
  have "\<And>k. k \<in> set (map fst c) \<Longrightarrow>
          (case map_of m k of
             None \<Rightarrow> False
           | Some x \<Rightarrow> (case map_of c k of None \<Rightarrow> False | Some y \<Rightarrow> P x y))"
  proof -
    fix k assume "k \<in> set (map fst c)"
    then obtain y where ky: "(k, y) \<in> set c" by auto
    with dc have "map_of c k = Some y" by simp
    moreover from L ky have "case map_of m k of None \<Rightarrow> False | Some x \<Rightarrow> P x y" by auto
    ultimately show "case map_of m k of
             None \<Rightarrow> False
           | Some x \<Rightarrow> (case map_of c k of None \<Rightarrow> False | Some y \<Rightarrow> P x y)"
      by (simp split: option.splits)
  qed
  with eq show ?R by (simp add: list_all_iff)
next
  assume R: ?R
  then have eq: "set (map fst m) = set (map fst c)" by simp
  have "length m = card (set (map fst m))" using distinct_card [OF dm] by simp
  also have "\<dots> = card (set (map fst c))" using eq by simp
  also have "\<dots> = length c" using distinct_card [OF dc] by simp
  finally have len: "length m = length c" .
  have "\<And>k y. (k, y) \<in> set c \<Longrightarrow> (case map_of m k of None \<Rightarrow> False | Some x \<Rightarrow> P x y)"
  proof -
    fix k y assume ky: "(k, y) \<in> set c"
    with dc have "map_of c k = Some y" by simp
    moreover from ky have "k \<in> set (map fst c)" by force
    ultimately show "case map_of m k of None \<Rightarrow> False | Some x \<Rightarrow> P x y"
      using R by (auto simp: list_all_iff split: option.splits)
  qed
  with len show ?L by auto
qed

lemma equalsConst_deepEqual:
  "wf_val v \<Longrightarrow> wf_any c \<Longrightarrow> equalsConst v c = deepEqual v c"
proof (induction c arbitrary: v)
  case (AArray cs)
  show ?case
  proof (cases "v_repr v")
    case (VArray a)
    have "\<And>j. j < length cs \<Longrightarrow> length a = length cs \<Longrightarrow>
            equalsConst (a ! j) (cs ! j) = deepEqual (a ! j) (cs ! j)"
    proof -
      fix j assume j: "j < length cs" and l: "length a = length cs"
      have "wf_val (a ! j)" using wf_val_array [OF AArray.prems(1) VArray, of "a ! j"] j l by simp
      moreover have "wf_any (cs ! j)" using AArray.prems(2) j by (simp add: list_all_length)
      ultimately show "equalsConst (a ! j) (cs ! j) = deepEqual (a ! j) (cs ! j)"
        using AArray.IH [of "cs ! j" "a ! j"] j by simp
    qed
    then show ?thesis
      using VArray by (auto simp: equalsConst_array_nth list_all2_conv_all_nth)
  qed simp_all
next
  case (AObject c)
  show ?case
  proof (cases "v_repr v")
    case (VObject m)
    have dm: "distinct (map fst m)" and wm: "\<forall>(k, x) \<in> set m. wf_val x"
      using wf_val_object [OF AObject.prems(1) VObject] by auto
    have dc: "distinct (map fst c)" and wc: "\<forall>(k, y) \<in> set c. wf_any y"
      using AObject.prems(2) by (auto simp: list_all_iff)
    let ?E = "\<forall>(k, y) \<in> set c. case map_of m k of None \<Rightarrow> False | Some x \<Rightarrow> equalsConst x y"
    let ?D = "\<forall>(k, y) \<in> set c. case map_of m k of None \<Rightarrow> False | Some x \<Rightarrow> deepEqual x y"
    have eqv: "?E = ?D"
    proof -
      have "\<And>k y x. (k, y) \<in> set c \<Longrightarrow> map_of m k = Some x \<Longrightarrow> equalsConst x y = deepEqual x y"
      proof -
        fix k y x assume ky: "(k, y) \<in> set c" and mx: "map_of m k = Some x"
        from mx have "(k, x) \<in> set m" by (rule map_of_SomeD)
        with wm have "wf_val x" by auto
        moreover from wc ky have "wf_any y" by auto
        moreover from ky have "y \<in> Basic_BNFs.snds (k, y)" by simp
        ultimately show "equalsConst x y = deepEqual x y"
          using AObject.IH [of "(k, y)" y x] ky by simp
      qed
      then show ?thesis by (auto split: option.splits)
    qed
    have e1: "equalsConst v (AObject c) = (length m = length c \<and> ?E)"
      using VObject by (auto simp: equalsConst_map_all)
    have e2: "deepEqual v (AObject c) =
        (set (map fst m) = set (map fst c)
         \<and> list_all (\<lambda>k. case map_of m k of
                           None \<Rightarrow> False
                         | Some x \<Rightarrow> (case map_of c k of None \<Rightarrow> False | Some y \<Rightarrow> deepEqual x y))
              (map fst c))"
      using VObject by simp
    show ?thesis
      unfolding e1 e2 eqv by (rule keys_eq_iff [OF dm dc])
  qed simp_all
qed (simp_all split: valueRepr.splits)

lemma validateEnum_loop_ex: "validateEnum_loop v cs = (\<exists>c \<in> set cs. equalsConst v c)"
  by (induction cs) simp_all

text \<open>
  C7.  For a schema with \<open>const\<close> set, the const clause passes iff the value deep-equals
  the literal, and for a schema with a non-empty \<open>enum\<close> the enum clause passes iff the
  value deep-equals one of its members; deep equality compares numbers by their JSON
  texts, arrays element-wise with equal length and objects key-wise with equal key sets.
\<close>

theorem const_enum_deep_equality:
  assumes "wf_val v"
  shows "(Const (clauses accept) \<noteq> ANil \<and> wf_any (Const (clauses accept)) \<longrightarrow>
            fst (validateConst v accept loc) = deepEqual v (Const (clauses accept)))
         \<and> (Enum (clauses accept) \<noteq> [] \<and> list_all wf_any (Enum (clauses accept)) \<longrightarrow>
            fst (validateEnum v accept loc) =
              (\<exists>c \<in> set (Enum (clauses accept)). deepEqual v c))"
proof (intro conjI impI)
  assume "Const (clauses accept) \<noteq> ANil \<and> wf_any (Const (clauses accept))"
  then show "fst (validateConst v accept loc) = deepEqual v (Const (clauses accept))"
    using equalsConst_deepEqual [OF assms, of "Const (clauses accept)"]
    by (simp add: validateConst_def constError_def)
next
  assume e: "Enum (clauses accept) \<noteq> [] \<and> list_all wf_any (Enum (clauses accept))"
  then have "\<And>c. c \<in> set (Enum (clauses accept)) \<Longrightarrow> equalsConst v c = deepEqual v c"
    using equalsConst_deepEqual [OF assms] by (simp add: list_all_iff)
  then have "(\<exists>c \<in> set (Enum (clauses accept)). equalsConst v c)
      = (\<exists>c \<in> set (Enum (clauses accept)). deepEqual v c)"
    by auto
  then show "fst (validateEnum v accept loc) =
      (\<exists>c \<in> set (Enum (clauses accept)). deepEqual v c)"
    using e by (simp add: validateEnum_def enumError_def constError_def validateEnum_loop_ex)
qed

theorem const_enum_deep_equality_witness:
  "wf_val (objValue 1 [(''n'', numValue 2 ''1.0'')])
   \<and> deepEqual (objValue 1 [(''n'', numValue 2 ''1.0'')]) (AObject [(''n'', ANumber ''1.0'')])
   \<and> fst (validateConst (objValue 1 [(''n'', numValue 2 ''1.0'')])
        (constSchema (AObject [(''n'', ANumber ''1.0'')])
           [AObject [(''n'', ANumber ''1'')], AString ''x'']) (top (symbolExpr 1)))
   \<and> \<not> fst (validateEnum (objValue 1 [(''n'', numValue 2 ''1.0'')])
        (constSchema (AObject [(''n'', ANumber ''1.0'')])
           [AObject [(''n'', ANumber ''1'')], AString ''x'']) (top (symbolExpr 1)))"
proof -
  let ?v = "objValue 1 [(''n'', numValue 2 ''1.0'')]"
  let ?a = "constSchema (AObject [(''n'', ANumber ''1.0'')])
           [AObject [(''n'', ANumber ''1'')], AString ''x'']"
  have w: "wf_val ?v" by code_simp
  have d: "deepEqual ?v (AObject [(''n'', ANumber ''1.0'')])" by code_simp
  have n: "\<not> (\<exists>c \<in> set [AObject [(''n'', ANumber ''1'')], AString ''x'']. deepEqual ?v c)"
    by code_simp
  show ?thesis
    using const_enum_deep_equality [OF w, of ?a "top (symbolExpr 1)"] w d n
    by (simp add: constSchema_def zeroClauses_def)
qed

subsection \<open>Blame locations\<close>

lemma validateValue_ignores_loc: "validateValue v accept loc = validateValue v accept loc'"
  by (simp add: validateValue.simps)

lemma index_literal:
  "x_repr (loc_x l) = ListExpr n elements \<Longrightarrow> i < length elements \<Longrightarrow>
   index l i = \<lparr>loc_x = elements ! i, loc_path = ''['' @ itoa i @ '']'', loc_prefix = False\<rparr>"
  by (simp add: index_def)

lemma index_other:
  "(\<And>n elements. x_repr (loc_x l) = ListExpr n elements \<Longrightarrow> length elements \<le> i) \<Longrightarrow>
   index l i = \<lparr>loc_x = loc_x l, loc_path = loc_path l @ ''['' @ itoa i @ '']'',
                loc_prefix = True\<rparr>"
  by (cases "x_repr (loc_x l)") (auto simp: index_def Let_def)

text \<open>
  C3.  When the validator descends into an element of a value that is not defined by a
  literal, the error is to blame the outer defining expression, with the relative path
  as a prefix of the message.  The code does not: \<open>validateValue\<close> drops the location it
  is given and starts again from the defining expression of the element.  For the array
  defined by the symbol at line 1 whose element is the string defined at line 7, the
  type error is reported at line 7 with no prefix; the location \<open>validateArray\<close>
  computed for it, and handed to \<open>validateValue\<close>, is line 1 with the prefix \<open>[0]\<close>.
\<close>

theorem validateValue_blames_element_def:
  "validateValue (arrValue 1 [strValue 7 ''x'']) (Some (arraySchema [] (Some (typed ''number''))))
      (top (symbolExpr 1)) =
     Some (False, [\<lparr>node = node_at 7 (StringExpr ''x''), format = ''expected %s, got %s'',
                    args = [FString ''number'', FString ''string'']\<rparr>])
   \<and> validationErrorf (index (top (symbolExpr 1)) 0) ''expected %s, got %s''
        [FString ''number'', FString ''string''] =
       \<lparr>node = node_at 1 OtherSyntax, format = ''[0]: expected %s, got %s'',
        args = [FString ''number'', FString ''string'']\<rparr>"
  by code_simp

subsection \<open>Accumulation of diagnostics\<close>

lemma all_of_opt_Nil [simp]: "all_of_opt [] = Some (True, [])"
  by (simp add: all_of_opt_def)

lemma all_of_opt_Cons:
  "all_of_opt (r # rs) =
     (case r of
        None \<Rightarrow> None
      | Some x \<Rightarrow> (case all_of_opt rs of
                     None \<Rightarrow> None
                   | Some y \<Rightarrow> Some (fst x \<and> fst y, snd x @ snd y)))"
  by (cases r) (auto simp: all_of_opt_def)


lemma failed_clause:
  "(if c then failed st d else st) = (fst st \<and> fst (clause c d), snd st @ snd (clause c d))"
  by (simp add: failed_def clause_def)


lemma validateNumber_clauses:
  assumes "ParseFloat v = Inr n"
  shows "validateNumber v accept loc =
     all_of_opt
       [multipleOfClause n accept loc,
        Some (clause (case minimum (clauses accept) of Some m \<Rightarrow> Cmp n m > 0 | None \<Rightarrow> False)
               (validationErrorf loc ''expected a number greater than or equal to %v''
                  [FString (Minimum (clauses accept))])),
        Some (clause (case exclusiveMinimum (clauses accept) of Some m \<Rightarrow> Cmp n m \<ge> 0 | None \<Rightarrow> False)
               (validationErrorf loc ''expected a number greater than %v''
                  [FString (ExclusiveMinimum (clauses accept))])),
        Some (clause (case maximum (clauses accept) of Some m \<Rightarrow> Cmp n m < 0 | None \<Rightarrow> False)
               (validationErrorf loc ''expected a number less than or equal to%v''
                  [FString (Maximum (clauses accept))])),
        Some (clause (case exclusiveMaximum (clauses accept) of Some m \<Rightarrow> Cmp n m \<le> 0 | None \<Rightarrow> False)
               (validationErrorf loc ''expected a number less than %v''
                  [FString (ExclusiveMaximum (clauses accept))]))]"
proof (cases "multipleOfClause n accept loc")
  case None
  then show ?thesis
    using assms
    by (auto simp: validateNumber_def multipleOfClause_def all_of_opt_Cons split: option.splits)
next
  case (Some st)
  then have "(case multipleOf (clauses accept) of
                   None \<Rightarrow> Some (True, [])
                 | Some m \<Rightarrow>
                     (case Quo n m of
                        None \<Rightarrow> None
                      | Some q \<Rightarrow>
                          if \<not> IsInt q
                          then Some (failed (True, [])
                                 (validationErrorf loc ''expected a multiple of %v''
                                    [FString (MultipleOf (clauses accept))]))
                          else Some (True, []))) = Some st"
    by (auto simp: multipleOfClause_def clause_def failed_def split: option.splits)
  then show ?thesis
    using assms Some
    by (simp add: validateNumber_def all_of_opt_Cons Let_def failed_def clause_def
        split: option.splits)
qed












subsection \<open>Multiples\<close>

lemma pow2_pos: "0 < pow2 e"
  by (simp add: pow2_def)

lemma pow2_inverse: "pow2 e * pow2 (- e) = 1"
  by (simp add: pow2_def)

lemma pow2_of_int: "0 \<le> e \<Longrightarrow> pow2 e = of_int (2 ^ nat e)"
  by (simp add: pow2_def)

lemma round_half_even_of_int: "round_half_even (of_int k) = k"
  by (simp add: round_half_even_def)

lemma sgn_of_int_rat: "sgn (of_int k :: rat) = of_int (sgn k)"
  by (simp add: sgn_if)

lemma round_prec_of_int: "\<exists>j. round_prec p (of_int k) = of_int j"
proof (cases "k = 0")
  case True
  then show ?thesis by (simp add: round_prec_def)
next
  case False
  let ?a = "\<bar>of_int k :: rat\<bar>"
  let ?e = "ilog2 ?a"
  let ?s = "int p - 1 - ?e"
  let ?m = "round_half_even (?a * pow2 ?s)"
  have r: "round_prec p (of_int k) = sgn (of_int k) * of_int ?m * pow2 (?e - (int p - 1))"
    using False by (simp add: round_prec_def Let_def)
  show ?thesis
  proof (cases "0 \<le> ?s")
    case True
    have "?a * pow2 ?s = of_int (\<bar>k\<bar> * 2 ^ nat ?s)"
      using True by (simp add: pow2_of_int)
    then have "?m = \<bar>k\<bar> * 2 ^ nat ?s"
      by (simp only: round_half_even_of_int)
    then have "round_prec p (of_int k)
        = of_int (sgn k) * of_int (\<bar>k\<bar> * 2 ^ nat ?s) * pow2 (?e - (int p - 1))"
      using r by (simp only: sgn_of_int_rat)
    also have "\<dots> = of_int (sgn k * \<bar>k\<bar>) * (pow2 ?s * pow2 (- ?s))"
      using True by (simp add: pow2_of_int)
    also have "\<dots> = of_int (sgn k * \<bar>k\<bar>)"
      by (simp only: pow2_inverse mult_1_right)
    finally show ?thesis by blast
  next
    case False
    then have "0 \<le> ?e - (int p - 1)" by simp
    then have "pow2 (?e - (int p - 1)) = of_int (2 ^ nat (?e - (int p - 1)))"
      by (rule pow2_of_int)
    then have "round_prec p (of_int k)
        = of_int (sgn k * ?m * 2 ^ nat (?e - (int p - 1)))"
      using r by (simp add: sgn_of_int_rat)
    then show ?thesis by blast
  qed
qed

lemma IsInt_Quo_exact:
  assumes "b \<noteq> 0" and "a / b = of_int k"
  shows "\<exists>q. Quo (Finite p a) (Finite p' b) = Some q \<and> IsInt q"
proof -
  obtain j where "round_prec (max p p') (of_int k) = of_int j"
    using round_prec_of_int by blast
  then show ?thesis using assms by simp
qed

lemma validationErrorf_eq:
  "(validationErrorf loc f as = validationErrorf loc g bs) = (f = g \<and> as = bs)"
  by (auto simp: validationErrorf_def)

lemma all_of_opt_Some_head:
  "all_of_opt (r # map Some cs) = Some (ok, ds) \<Longrightarrow>
   \<exists>x. r = Some x \<and> ok = (fst x \<and> list_all fst cs) \<and> ds = snd x @ concat (map snd cs)"
  by (cases r) (auto simp: all_of_opt_def all_of_def o_def list_all_iff)

lemma clause_set: "set (snd (clause c d)) = (if c then {d} else {})"
  by (simp add: clause_def)

text \<open>
  C4 (as amended).  For a number \<open>v\<close> and a schema with \<open>multipleOf\<close> set, when the
  validation of the number returns, the \<open>multipleOf\<close> clause is violated iff the quotient
  of two binary floats is not an integer: \<open>v\<close> as parsed, rounded to 64 bits, and the
  compiled \<open>multipleOf\<close>, their quotient being rounded to the larger of the two
  precisions.  A violation emits the diagnostic \<open>expected a multiple of\<close> and fails the
  check.  Whenever the exact quotient of the two floats is an integer the clause passes.
\<close>

theorem multipleOf_clause:
  assumes p: "ParseFloat v = Inr n" and m: "multipleOf (clauses accept) = Some m"
    and r: "validateNumber v accept loc = Some (ok, ds)"
  shows "(\<exists>q. Quo n m = Some q
            \<and> ((validationErrorf loc ''expected a multiple of %v''
                   [FString (MultipleOf (clauses accept))] \<in> set ds) = (\<not> IsInt q))
            \<and> (\<not> IsInt q \<longrightarrow> \<not> ok))
         \<and> (\<forall>p a p' b k. n = Finite p a \<and> m = Finite p' b \<and> b \<noteq> 0 \<and> a / b = of_int k \<longrightarrow>
              validationErrorf loc ''expected a multiple of %v''
                [FString (MultipleOf (clauses accept))] \<notin> set ds)"
proof -
  let ?d = "validationErrorf loc ''expected a multiple of %v''
                   [FString (MultipleOf (clauses accept))]"
  let ?cs = "[clause (case minimum (clauses accept) of Some m \<Rightarrow> Cmp n m > 0 | None \<Rightarrow> False)
               (validationErrorf loc ''expected a number greater than or equal to %v''
                  [FString (Minimum (clauses accept))]),
             clause (case exclusiveMinimum (clauses accept) of Some m \<Rightarrow> Cmp n m \<ge> 0 | None \<Rightarrow> False)
               (validationErrorf loc ''expected a number greater than %v''
                  [FString (ExclusiveMinimum (clauses accept))]),
             clause (case maximum (clauses accept) of Some m \<Rightarrow> Cmp n m < 0 | None \<Rightarrow> False)
               (validationErrorf loc ''expected a number less than or equal to%v''
                  [FString (Maximum (clauses accept))]),
             clause (case exclusiveMaximum (clauses accept) of Some m \<Rightarrow> Cmp n m \<le> 0 | None \<Rightarrow> False)
               (validationErrorf loc ''expected a number less than %v''
                  [FString (ExclusiveMaximum (clauses accept))])]"
  from r have "all_of_opt (multipleOfClause n accept loc # map Some ?cs) = Some (ok, ds)"
    unfolding validateNumber_clauses [OF p] by simp
  then obtain x where x: "multipleOfClause n accept loc = Some x"
    and okx: "ok = (fst x \<and> list_all fst ?cs)" and dsx: "ds = snd x @ concat (map snd ?cs)"
    using all_of_opt_Some_head by blast
  from x obtain q where q: "Quo n m = Some q"
    using m by (auto simp: multipleOfClause_def split: option.splits)
  then have mc: "x = clause (\<not> IsInt q) ?d"
    using m x by (simp add: multipleOfClause_def)
  have ok: "ok \<longrightarrow> IsInt q"
    unfolding okx mc by (simp add: clause_def)
  have ds: "(?d \<in> set ds) = (\<not> IsInt q)"
    unfolding dsx mc by (simp add: clause_set validationErrorf_eq)
  have first: "\<exists>q. Quo n m = Some q \<and> ((?d \<in> set ds) = (\<not> IsInt q)) \<and> (\<not> IsInt q \<longrightarrow> \<not> ok)"
    using q ok ds by blast
  have second: "\<forall>p a p' b k. n = Finite p a \<and> m = Finite p' b \<and> b \<noteq> 0 \<and> a / b = of_int k \<longrightarrow>
      ?d \<notin> set ds"
  proof (intro allI impI)
    fix p a p' b k
    assume h: "n = Finite p a \<and> m = Finite p' b \<and> b \<noteq> 0 \<and> a / b = of_int k"
    then obtain q' where "Quo n m = Some q' \<and> IsInt q'"
      using IsInt_Quo_exact [of b a k p p'] by auto
    with q have "IsInt q" by simp
    with ds show "?d \<notin> set ds" by simp
  qed
  from first second show ?thesis by (rule conjI)
qed

text \<open>
  C4 as stated fails: the quotient is not exact for every decimal input.  The number
  18446744073709551616.5 is accepted as a multiple of 1, and 0.9 is rejected as a
  multiple of 0.3 (the bound being compiled the way the number is parsed).
\<close>

theorem multipleOf_counterexample:
  "\<not> exactMultiple ''18446744073709551616.5'' ''1''
   \<and> validateNumber ''18446744073709551616.5'' (multipleSchema ''1'') five = Some (True, [])
   \<and> exactMultiple ''0.9'' ''0.3''
   \<and> validateNumber ''0.9'' (multipleSchema ''0.3'') five =
       Some (False, [\<lparr>node = node_at 1 (NumberExpr ''5''), format = ''expected a multiple of %v'',
                      args = [FString ''0.3'']\<rparr>])"
  by code_simp

theorem multipleOf_clause_witness:
  "ParseFloat ''0.3'' = Inr (Finite 64 (5534023222112865485 / 18446744073709551616))
   \<and> multipleOf (clauses (multipleSchema ''0.1'')) =
       Some (Finite 64 (14757395258967641293 / 147573952589676412928))
   \<and> validateNumber ''0.3'' (multipleSchema ''0.1'') five = Some (True, [])
   \<and> (\<exists>q. Quo (Finite 64 (5534023222112865485 / 18446744073709551616))
              (Finite 64 (14757395258967641293 / 147573952589676412928)) = Some q \<and> IsInt q)"
proof -
  have p: "ParseFloat ''0.3'' = Inr (Finite 64 (5534023222112865485 / 18446744073709551616))"
    by code_simp
  have m: "multipleOf (clauses (multipleSchema ''0.1'')) =
       Some (Finite 64 (14757395258967641293 / 147573952589676412928))"
    by code_simp
  have r: "validateNumber ''0.3'' (multipleSchema ''0.1'') five = Some (True, [])"
    by code_simp
  show ?thesis
    using multipleOf_clause [OF p m r] p m r by auto
qed

subsection \<open>Export of access chains\<close>

lemma export_access:
  "x_repr x = AccessExpr n receiver a \<Longrightarrow>
   export x environment =
     (case (case x_base x of
              None \<Rightarrow> Inr None
            | Some b \<Rightarrow>
                (case export (v_def b) environment of
                   Inl p \<Rightarrow> Inl p
                 | Inr e \<Rightarrow> Inr (Some e))) of
        Inl p \<Rightarrow> Inl p
      | Inr base \<Rightarrow>
          (case exportAccessor a of
             Inl p \<Rightarrow> Inl p
           | Inr accessor \<Rightarrow>
               (case x_repr (v_def receiver) of
                  AccessExpr n' receiver' a' \<Rightarrow>
                    (case export (v_def receiver) environment of
                       Inl p \<Rightarrow> Inl p
                     | Inr (EnvExpr r b s l i sy acc li ob bu) \<Rightarrow>
                         (case acc of
                            None \<Rightarrow> Inl NilPointer
                          | Some ac \<Rightarrow>
                              Inr (EnvExpr r b s l i sy
                                    (Some (ac\<lparr>Accessors := Accessors ac @ [accessor]\<rparr>))
                                    li ob bu)))
                | _ \<Rightarrow>
                    Inr (EnvExpr (defRange x environment) base (x_schema x) ANil None None
                          (Some \<lparr>Receiver = defRange (v_def receiver) environment,
                                 Accessors = [accessor]\<rparr>)
                          None None None))))"
  by (subst export.simps) (simp add: Let_def split: sum.split cong: sum.case_cong)

lemma export_chain_shape:
  "x_repr x = AccessExpr n receiver a \<Longrightarrow> export x environment = Inr ex \<Longrightarrow>
   \<exists>accs. map exportAccessor (chain_accessors x) = map Inr accs
      \<and> single_access ex (defRange (innermost x) environment) accs"
proof (induction x arbitrary: n receiver a ex rule: innermost.induct)
  case (1 x)
  note acc = "1.prems"(1) and ex = "1.prems"(2)
  from ex obtain accessor where a: "exportAccessor a = Inr accessor"
    unfolding export_access [OF acc] by (auto split: sum.splits option.splits)
  show ?case
  proof (cases "\<exists>n' receiver' a'. x_repr (v_def receiver) = AccessExpr n' receiver' a'")
    case True
    then obtain n' receiver' a' where r: "x_repr (v_def receiver) = AccessExpr n' receiver' a'"
      by blast
    from ex obtain ex' ac where ex': "export (v_def receiver) environment = Inr ex'"
      and ac: "Access ex' = Some ac"
      and e: "ex = EnvExpr (Range_e ex') (Base ex') (Schema_e ex') (Literal ex') (Interpolate ex')
                 (Symbol ex') (Some (ac\<lparr>Accessors := Accessors ac @ [accessor]\<rparr>))
                 (List_e ex') (Object ex') (Builtin ex')"
      unfolding export_access [OF acc] a r
      by (auto split: sum.splits option.splits env_Expr.splits)
    from "1.IH" [OF acc r ex'] obtain accs where
      m: "map exportAccessor (chain_accessors (v_def receiver)) = map Inr accs"
      and s: "single_access ex' (defRange (innermost (v_def receiver)) environment) accs"
      by blast
    have i: "innermost x = innermost (v_def receiver)"
      using acc by (subst innermost.simps) simp
    have c: "chain_accessors x = chain_accessors (v_def receiver) @ [a]"
      using acc by (subst chain_accessors.simps) simp
    have "map exportAccessor (chain_accessors x) = map Inr (accs @ [accessor])"
      using m a c by simp
    moreover have "single_access ex (defRange (innermost x) environment) (accs @ [accessor])"
      using s ac e i by (auto simp: single_access_def)
    ultimately show ?thesis by blast
  next
    case False
    then have e: "ex = EnvExpr (defRange x environment) (Base ex) (x_schema x) ANil None None
                          (Some \<lparr>Receiver = defRange (v_def receiver) environment,
                                 Accessors = [accessor]\<rparr>)
                          None None None"
      using ex unfolding export_access [OF acc] a
      by (cases "x_repr (v_def receiver)") (auto split: sum.splits option.splits)
    have "innermost (v_def receiver) = v_def receiver"
      using False by (subst innermost.simps) (auto split: exprRepr.splits)
    then have i: "innermost x = v_def receiver"
      using acc by (subst innermost.simps) simp
    have "chain_accessors (v_def receiver) = []"
      using False by (subst chain_accessors.simps) (auto split: exprRepr.splits)
    then have c: "chain_accessors x = [a]"
      using acc by (subst chain_accessors.simps) simp
    have "map exportAccessor (chain_accessors x) = map Inr [accessor]"
      using a c by simp
    moreover have "single_access ex (defRange (innermost x) environment) [accessor]"
      using i by (subst e) (simp add: single_access_def)
    ultimately show ?thesis by blast
  qed
qed

lemma export_chain_returns:
  "chain_exports x environment \<Longrightarrow> \<exists>ex. export x environment = Inr ex"
proof (induction x rule: innermost.induct)
  case (1 x)
  from "1.prems" obtain n receiver a where acc: "x_repr x = AccessExpr n receiver a"
    by (subst (asm) chain_exports.simps) (auto split: exprRepr.splits)
  from "1.prems" acc have
    base: "case x_base x of None \<Rightarrow> True | Some b \<Rightarrow> returns (export (v_def b) environment)"
    and a: "returns (exportAccessor a)"
    and inner: "case x_repr (v_def receiver) of
                  AccessExpr n' receiver' a' \<Rightarrow> chain_exports (v_def receiver) environment
                | _ \<Rightarrow> True"
    by (subst (asm) chain_exports.simps, simp)+
  from base obtain b where b: "(case x_base x of
              None \<Rightarrow> Inr None
            | Some b \<Rightarrow>
                (case export (v_def b) environment of
                   Inl p \<Rightarrow> Inl p
                 | Inr e \<Rightarrow> Inr (Some e))) = Inr b"
    by (auto simp: returns_def split: option.splits sum.splits)
  from a obtain accessor where accessor: "exportAccessor a = Inr accessor"
    by (auto simp: returns_def split: sum.splits)
  show ?case
  proof (cases "\<exists>n' receiver' a'. x_repr (v_def receiver) = AccessExpr n' receiver' a'")
    case True
    then obtain n' receiver' a' where r: "x_repr (v_def receiver) = AccessExpr n' receiver' a'"
      by blast
    with inner have "chain_exports (v_def receiver) environment" by simp
    from "1.IH" [OF acc this] obtain ex' where ex': "export (v_def receiver) environment = Inr ex'"
      by blast
    from export_chain_shape [OF r ex'] obtain ac where "Access ex' = Some ac"
      by (auto simp: single_access_def)
    then show ?thesis
      unfolding export_access [OF acc] b accessor r ex'
      by (cases ex') simp
  next
    case False
    then show ?thesis
      unfolding export_access [OF acc] b accessor
      by (cases "x_repr (v_def receiver)") simp_all
  qed
qed

text \<open>
  C9.  For a chain of nested access expressions, \<open>export\<close> produces a single record
  whose \<open>access\<close> has for receiver the range of the innermost receiver that is not an
  access, and for accessors those of the chain in the order they are applied; the
  record has no other payload, and no access record is nested in it.
\<close>

theorem export_flattens_access_chain:
  assumes "chain_exports x environment"
  shows "\<exists>ex accs. export x environment = Inr ex
           \<and> map exportAccessor (chain_accessors x) = map Inr accs
           \<and> Access ex = Some \<lparr>Receiver = defRange (innermost x) environment,
                               Accessors = accs\<rparr>
           \<and> Literal ex = ANil \<and> Interpolate ex = None \<and> Symbol ex = None
           \<and> List_e ex = None \<and> Object ex = None \<and> Builtin ex = None"
proof -
  from assms obtain n receiver a where acc: "x_repr x = AccessExpr n receiver a"
    by (subst (asm) chain_exports.simps) (auto split: exprRepr.splits)
  from export_chain_returns [OF assms] obtain ex where ex: "export x environment = Inr ex"
    by blast
  from export_chain_shape [OF acc ex] show ?thesis
    using ex by (auto simp: single_access_def)
qed

theorem export_flattens_access_chain_witness:
  "chain_exports (accessExpr 3 (accessExpr 2 (symbolExpr 1) (PropertyName ''b''))
                    (PropertySubscript (IndexInt 0))) ''e''
   \<and> export (accessExpr 3 (accessExpr 2 (symbolExpr 1) (PropertyName ''b''))
               (PropertySubscript (IndexInt 0))) ''e'' =
       Inr (EnvExpr (rangeAt 2) None None ANil None None
             (Some \<lparr>Receiver = rangeAt 1,
                    Accessors = [\<lparr>Index = None, Key = Some ''b''\<rparr>,
                                 \<lparr>Index = Some 0, Key = None\<rparr>]\<rparr>)
             None None None)"
proof -
  let ?x = "accessExpr 3 (accessExpr 2 (symbolExpr 1) (PropertyName ''b''))
                    (PropertySubscript (IndexInt 0))"
  have c: "chain_exports ?x ''e''"
    by (simp add: chain_exports.simps accessExpr_def symbolExpr_def returns_def)
  have r: "export ?x ''e'' = Inr (EnvExpr (rangeAt 2) None None ANil None None
             (Some \<lparr>Receiver = rangeAt 1,
                    Accessors = [\<lparr>Index = None, Key = Some ''b''\<rparr>,
                                 \<lparr>Index = Some 0, Key = None\<rparr>]\<rparr>)
             None None None)"
    by (simp add: export.simps accessExpr_def symbolExpr_def defRange_def node_at_def
        rangeAt_def)
  from export_flattens_access_chain [OF c] obtain ex accs where
    "export ?x ''e'' = Inr ex" by blast
  with c r show ?thesis by simp
qed

end
